theory Spec2Isabelle
  imports Main
begin

section \<open>The page: elements, window and closure state\<close>

text \<open>
  The script in \<^verbatim>\<open>src/main.js\<close> manipulates the elements of one HTML document.
  The document is held as a store: the list of its elements in document order, an
  element reference being an index into that list. The tree shape is kept by the
  \<open>depth\<close> of every element (the pre-order listing of a tree with depths), so that
  the descendants of an element are the run of deeper elements that follows it. The
  script never inserts or removes an element; it only changes class lists, inline
  styles and attributes.
\<close>

record element =
  tag :: string
  ident :: string
  classes :: "string list"
  style :: "string \<Rightarrow> string"
  attrs :: "string \<Rightarrow> string option"
  scrollHeight :: nat
  depth :: nat

text \<open>
  \<open>ident\<close> is the \<^verbatim>\<open>id\<close> attribute (empty when there is none), \<open>style\<close> the
  inline style declaration (a property that is not set reads as the empty string, as
  \<^verbatim>\<open>el.style.height\<close> does; a value is kept as the text that was assigned, the
  browser's own rewriting of values is not modelled), \<open>attrs\<close> the other attributes (\<^verbatim>\<open>getAttribute\<close>
  gives \<^verbatim>\<open>null\<close>, here \<open>None\<close>, for a missing one) and \<open>scrollHeight\<close> the layout
  height the browser reports for the element, taken as given: layout is not computed.
\<close>

subsection \<open>classList, style and attribute updates\<close>

definition classList_add :: "string list \<Rightarrow> element \<Rightarrow> element" where
  "classList_add ts e =
     e\<lparr>classes := fold (\<lambda>t cs. if t \<in> set cs then cs else cs @ [t]) ts (classes e)\<rparr>"

definition classList_remove :: "string list \<Rightarrow> element \<Rightarrow> element" where
  "classList_remove ts e = e\<lparr>classes := filter (\<lambda>c. c \<notin> set ts) (classes e)\<rparr>"

definition style_set :: "string \<Rightarrow> string \<Rightarrow> element \<Rightarrow> element" where
  "style_set p v e = e\<lparr>style := (style e)(p := v)\<rparr>"

definition setAttribute :: "string \<Rightarrow> string \<Rightarrow> element \<Rightarrow> element" where
  "setAttribute a v e = e\<lparr>attrs := (attrs e)(a \<mapsto> v)\<rparr>"

definition modify :: "nat \<Rightarrow> (element \<Rightarrow> element) \<Rightarrow> element list \<Rightarrow> element list" where
  "modify i f els = els[i := f (els ! i)]"

subsection \<open>Selectors\<close>

text \<open>
  The four kinds of selector the script uses: \<^verbatim>\<open>#id\<close> (also \<^verbatim>\<open>getElementById\<close>),
  \<^verbatim>\<open>.class\<close>, a tag name, and \<^verbatim>\<open>a[href^="#"]\<close>.
\<close>

datatype selector = Id string | Class string | Tag string | HashLink

fun matches :: "selector \<Rightarrow> element \<Rightarrow> bool" where
  "matches (Id x) e = (ident e = x)"
| "matches (Class c) e = (c \<in> set (classes e))"
| "matches (Tag t) e = (tag e = t)"
| "matches HashLink e =
     (tag e = ''a'' \<and> (case attrs e ''href'' of Some (c # _) \<Rightarrow> c = CHR ''#'' | _ \<Rightarrow> False))"

definition querySelectorAll :: "element list \<Rightarrow> selector \<Rightarrow> nat list" where
  "querySelectorAll els sel = filter (\<lambda>j. matches sel (els ! j)) [0..<length els]"

definition first_of :: "nat list \<Rightarrow> nat option" where
  "first_of js = (case js of [] \<Rightarrow> None | j # _ \<Rightarrow> Some j)"

definition querySelector :: "element list \<Rightarrow> selector \<Rightarrow> nat option" where
  "querySelector els sel = first_of (querySelectorAll els sel)"

definition descendants :: "element list \<Rightarrow> nat \<Rightarrow> nat list" where
  "descendants els i =
     (if i < length els
      then [Suc i ..< Suc i + length (takeWhile (\<lambda>e. depth (els ! i) < depth e) (drop (Suc i) els))]
      else [])"

definition element_querySelectorAll :: "element list \<Rightarrow> nat \<Rightarrow> selector \<Rightarrow> nat list" where
  "element_querySelectorAll els i sel = filter (\<lambda>j. matches sel (els ! j)) (descendants els i)"

definition element_querySelector :: "element list \<Rightarrow> nat \<Rightarrow> selector \<Rightarrow> nat option" where
  "element_querySelector els i sel = first_of (element_querySelectorAll els i sel)"

text \<open>\<^verbatim>\<open>NodeList.forEach\<close>: the body runs on every reference of the list, in order.\<close>

definition forEach :: "nat list \<Rightarrow> (nat \<Rightarrow> element list \<Rightarrow> element list) \<Rightarrow> element list \<Rightarrow> element list" where
  "forEach js callback els = fold callback js els"

subsection \<open>Numbers as text\<close>

text \<open>The decimal text of a non-negative integer, as string concatenation in JavaScript gives it.\<close>

definition digit_char :: "nat \<Rightarrow> char" where
  "digit_char d = char_of (48 + d)"

fun string_of_nat :: "nat \<Rightarrow> string" where
  "string_of_nat n = (if n < 10 then [digit_char n] else string_of_nat (n div 10) @ [digit_char (n mod 10)])"

declare string_of_nat.simps [simp del]

subsection \<open>Console, listeners, timers and closures\<close>

datatype console_entry = Log string | Warn string

datatype target = Window | Elem nat

datatype handler = SetVH | RequestTick | MenuBtnClick | MenuLinkClick | CloseBtnClick

datatype timer_cb = GsapCheck | HideMobileMenu | OpenFirstAccordion

datatype raf_cb = UpdateNav

record scroll_trigger =
  trigger :: nat
  start :: string
  toggleActions :: string
  once :: bool

datatype gsap_call =
    RegisterPlugin
  | GsapFrom "nat list" "scroll_trigger option"
  | GsapFromTo nat scroll_trigger
  | GsapToCounter nat "int option" scroll_trigger

text \<open>
  The variables a feature's functions close over: the element references found at
  initialisation and the flags declared with \<^verbatim>\<open>let\<close>. The navigation closure
  also holds \<^verbatim>\<open>mainHeader\<close>, which none of its functions reads; it is left out.
\<close>

record nav_closure =
  navbar :: nat
  isScrolled :: bool
  ticking :: bool

record menu_closure =
  menuBtn :: nat
  mainHeader :: nat
  mobileMenu :: nat
  isOpen :: bool
  scrollPos :: nat

record page =
  elements :: "element list"
  documentElement :: nat
  body :: nat
  pageYOffset :: nat
  docScrollTop :: nat
  innerHeight :: nat
  console :: "console_entry list"
  listeners :: "(target \<times> string \<times> handler) list"
  timers :: "(nat \<times> timer_cb) list"
  rafs :: "raf_cb list"
  nav :: "nav_closure option"
  menu :: "menu_closure option"
  toggleMenu_global :: bool
  toggleAccordion_global :: bool
  gsap_loaded :: bool
  gsap_calls :: "gsap_call list"

text \<open>
  \<open>documentElement\<close> and \<open>body\<close> are the references \<^verbatim>\<open>document.documentElement\<close> and
  \<^verbatim>\<open>document.body\<close>; \<open>docScrollTop\<close> is \<^verbatim>\<open>document.documentElement.scrollTop\<close>.
  Scroll offsets and the window height are whole, non-negative CSS pixels.
  \<open>timers\<close> holds the pending \<^verbatim>\<open>setTimeout\<close> callbacks with their delays, \<open>rafs\<close> the
  pending \<^verbatim>\<open>requestAnimationFrame\<close> callbacks. \<open>toggleMenu_global\<close> and
  \<open>toggleAccordion_global\<close> say whether \<^verbatim>\<open>window.toggleMenu\<close> and
  \<^verbatim>\<open>window.toggleAccordion\<close> have been assigned, \<open>gsap_loaded\<close> whether the two globals
  of the animation library are defined. The console messages are kept without their
  leading pictographs.
\<close>

definition console_log :: "string \<Rightarrow> page \<Rightarrow> page" where
  "console_log m s = s\<lparr>console := console s @ [Log m]\<rparr>"

definition console_warn :: "string \<Rightarrow> page \<Rightarrow> page" where
  "console_warn m s = s\<lparr>console := console s @ [Warn m]\<rparr>"

definition setTimeout :: "timer_cb \<Rightarrow> nat \<Rightarrow> page \<Rightarrow> page" where
  "setTimeout cb ms s = s\<lparr>timers := timers s @ [(ms, cb)]\<rparr>"

definition addEventListener :: "target \<Rightarrow> string \<Rightarrow> handler \<Rightarrow> page \<Rightarrow> page" where
  "addEventListener t ev h s = s\<lparr>listeners := listeners s @ [(t, ev, h)]\<rparr>"

section \<open>Accordion\<close>

definition toggleAccordion :: "nat \<Rightarrow> page \<Rightarrow> page" where
  "toggleAccordion element s =
     (let els = elements s;
          content = element_querySelector els element (Class ''accordion-content'');
          icon = element_querySelector els element (Class ''icon-toggle'')
      in case content of
           None \<Rightarrow> s
         | Some c \<Rightarrow>
             let allContents = querySelectorAll els (Class ''accordion-content'');
                 allIcons = querySelectorAll els (Class ''icon-toggle'');
                 allItems = querySelectorAll els (Class ''accordion-item'');
                 els1 = forEach allContents
                          (\<lambda>item d. if item \<noteq> c then modify item (style_set ''height'' ''0px'') d else d) els;
                 els2 = forEach allIcons
                          (\<lambda>item d. if Some item \<noteq> icon
                             then modify item (setAttribute ''icon'' ''solar:add-linear'')
                                    (modify item (classList_remove [''rotate-45'', ''text-blue-600'']) d)
                             else d) els1;
                 els3 = forEach allItems
                          (\<lambda>item d. if item \<noteq> element
                             then modify item (classList_remove [''border-blue-500'', ''shadow-md'']) d
                             else d) els2;
                 h = style (els3 ! c) ''height''
             in if h = ''0px'' \<or> h = ''''
                then
                  let els4 = modify c (style_set ''height'' (string_of_nat (scrollHeight (els3 ! c)) @ ''px'')) els3;
                      els5 = (case icon of
                                Some i \<Rightarrow> modify i (classList_add [''rotate-45'', ''text-blue-600'']) els4
                              | None \<Rightarrow> els4);
                      els6 = modify element (classList_add [''border-blue-500'', ''shadow-md'']) els5
                  in s\<lparr>elements := els6\<rparr>
                else
                  let els4 = modify c (style_set ''height'' ''0px'') els3;
                      els5 = (case icon of
                                Some i \<Rightarrow> modify i (classList_remove [''rotate-45'', ''text-blue-600'']) els4
                              | None \<Rightarrow> els4);
                      els6 = modify element (classList_remove [''border-blue-500'', ''shadow-md'']) els5
                  in s\<lparr>elements := els6\<rparr>)"

text \<open>The first half of the function body after the early return (``Close others'').\<close>

definition close_others :: "element list \<Rightarrow> nat \<Rightarrow> nat \<Rightarrow> nat option \<Rightarrow> element list" where
  "close_others els element c icon =
     forEach (querySelectorAll els (Class ''accordion-item''))
       (\<lambda>item d. if item \<noteq> element
          then modify item (classList_remove [''border-blue-500'', ''shadow-md'']) d
          else d)
       (forEach (querySelectorAll els (Class ''icon-toggle''))
          (\<lambda>item d. if Some item \<noteq> icon
             then modify item (setAttribute ''icon'' ''solar:add-linear'')
                    (modify item (classList_remove [''rotate-45'', ''text-blue-600'']) d)
             else d)
          (forEach (querySelectorAll els (Class ''accordion-content''))
             (\<lambda>item d. if item \<noteq> c then modify item (style_set ''height'' ''0px'') d else d) els))"

text \<open>
  An inline height counts as non-zero when it is set and is not \<^verbatim>\<open>0px\<close>: the
  negation of the test by which the function decides that a panel is closed.
\<close>

definition nonzero_height :: "element \<Rightarrow> bool" where
  "nonzero_height e = (style e ''height'' \<noteq> '''' \<and> style e ''height'' \<noteq> ''0px'')"

definition open_panels :: "page \<Rightarrow> nat list" where
  "open_panels s =
     filter (\<lambda>j. nonzero_height (elements s ! j))
       (querySelectorAll (elements s) (Class ''accordion-content''))"

section \<open>Navigation bar\<close>

definition pill_classes :: "string list" where
  "pill_classes = [''w-[90%]'', ''md:w-full'', ''max-w-2xl'', ''bg-white/90'', ''backdrop-blur-lg'',
     ''shadow-lg'', ''border'', ''border-slate-200'', ''rounded-2xl'', ''py-3'']"

definition expanded_classes :: "string list" where
  "expanded_classes = [''max-w-[92%]'', ''md:max-w-7xl'', ''bg-transparent'']"

text \<open>\<^verbatim>\<open>window.pageYOffset || document.documentElement.scrollTop\<close>: zero is falsy.\<close>

definition scrollY_of :: "page \<Rightarrow> nat" where
  "scrollY_of s = (if pageYOffset s \<noteq> 0 then pageYOffset s else docScrollTop s)"

text \<open>
  The functions of a feature exist only inside the closure its initializer builds. On
  a page where the closure was never built nothing can call them; the definitions
  leave such a page as it is.
\<close>

definition updateNav :: "page \<Rightarrow> page" where
  "updateNav s =
     (case nav s of
        None \<Rightarrow> s
      | Some n \<Rightarrow>
          let scrollY = scrollY_of s in
          if 50 < scrollY \<and> \<not> isScrolled n then
            console_log ''Nav: pill mode''
              (s\<lparr>elements := modify (navbar n) (classList_add pill_classes)
                                (modify (navbar n) (classList_remove expanded_classes) (elements s)),
                 nav := Some (n\<lparr>isScrolled := True, ticking := False\<rparr>)\<rparr>)
          else if scrollY \<le> 50 \<and> isScrolled n then
            console_log ''Nav: transparent mode''
              (s\<lparr>elements := modify (navbar n) (classList_remove pill_classes)
                                (modify (navbar n) (classList_add expanded_classes) (elements s)),
                 nav := Some (n\<lparr>isScrolled := False, ticking := False\<rparr>)\<rparr>)
          else s\<lparr>nav := Some (n\<lparr>ticking := False\<rparr>)\<rparr>)"

definition requestTick :: "page \<Rightarrow> page" where
  "requestTick s =
     (case nav s of
        None \<Rightarrow> s
      | Some n \<Rightarrow>
          if \<not> ticking n
          then s\<lparr>rafs := rafs s @ [UpdateNav], nav := Some (n\<lparr>ticking := True\<rparr>)\<rparr>
          else s)"

subsection \<open>Exceptions\<close>

text \<open>
  Reading a property of \<^verbatim>\<open>null\<close> throws a \<^verbatim>\<open>TypeError\<close>. The initializers look
  elements up and then use them, so each returns either the error or the new page.
\<close>

datatype js_error = TypeError

definition deref :: "nat option \<Rightarrow> js_error + nat" where
  "deref r = (case r of None \<Rightarrow> Inl TypeError | Some i \<Rightarrow> Inr i)"

definition and_then :: "js_error + 'a \<Rightarrow> ('a \<Rightarrow> js_error + 'b) \<Rightarrow> js_error + 'b" where
  "and_then r f = (case r of Inl e \<Rightarrow> Inl e | Inr x \<Rightarrow> f x)"

definition initNavigation :: "page \<Rightarrow> js_error + page" where
  "initNavigation s =
     (let navbar_ref = querySelector (elements s) (Id ''navbar'');
          mainHeader_ref = querySelector (elements s) (Id ''main-header'')
      in if navbar_ref = None \<or> mainHeader_ref = None
         then Inr (console_warn ''Navbar not found'' s)
         else
           and_then (deref navbar_ref) (\<lambda>n.
             Inr (updateNav
                   (addEventListener Window ''scroll'' RequestTick
                     ((console_log ''Navigation initialized'' s)
                        \<lparr>nav := Some \<lparr>navbar = n, isScrolled = False, ticking = False\<rparr>\<rparr>)))))"

section \<open>Mobile menu\<close>

definition openMenu :: "page \<Rightarrow> page" where
  "openMenu s =
     (case menu s of
        None \<Rightarrow> s
      | Some m \<Rightarrow>
          let s1 = console_log ''Opening menu'' s;
              saved = pageYOffset s1;
              els1 = modify (mobileMenu m) (style_set ''display'' ''flex'') (elements s1);
              els2 = modify (mobileMenu m) (classList_remove [''opacity-0'', ''pointer-events-none'']) els1;
              els3 = modify (mobileMenu m) (classList_add [''mobile-menu-open'']) els2;
              els4 = modify (mainHeader m) (style_set ''opacity'' ''0'') els3;
              els5 = modify (mainHeader m) (style_set ''pointer-events'' ''none'') els4;
              els6 = modify (body s1) (style_set ''position'' ''fixed'') els5;
              els7 = modify (body s1) (style_set ''top'' (''-'' @ string_of_nat saved @ ''px'')) els6;
              els8 = modify (body s1) (style_set ''left'' ''0'') els7;
              els9 = modify (body s1) (style_set ''right'' ''0'') els8;
              els10 = modify (body s1) (style_set ''width'' ''100%'') els9
          in s1\<lparr>menu := Some (m\<lparr>isOpen := True, scrollPos := saved\<rparr>), elements := els10\<rparr>)"

text \<open>
  \<^verbatim>\<open>window.scrollTo(0, y)\<close>. The page is taken to be in standards mode, where the
  window and the root element report the same offset; the extent of the scrollable
  area is not modelled, so the offset asked for is the offset reached.
\<close>

definition window_scrollTo :: "nat \<Rightarrow> page \<Rightarrow> page" where
  "window_scrollTo y s = s\<lparr>pageYOffset := y, docScrollTop := y\<rparr>"

definition closeMenu :: "page \<Rightarrow> page" where
  "closeMenu s =
     (case menu s of
        None \<Rightarrow> s
      | Some m \<Rightarrow>
          let s1 = console_log ''Closing menu'' s;
              els1 = modify (mobileMenu m) (classList_add [''opacity-0'', ''pointer-events-none'']) (elements s1);
              els2 = modify (mobileMenu m) (classList_remove [''mobile-menu-open'']) els1;
              s2 = setTimeout HideMobileMenu 300 s1;
              els3 = modify (mainHeader m) (style_set ''opacity'' ''1'') els2;
              els4 = modify (mainHeader m) (style_set ''pointer-events'' '''') els3;
              els5 = modify (body s2) (style_set ''position'' '''') els4;
              els6 = modify (body s2) (style_set ''top'' '''') els5;
              els7 = modify (body s2) (style_set ''left'' '''') els6;
              els8 = modify (body s2) (style_set ''right'' '''') els7;
              els9 = modify (body s2) (style_set ''width'' '''') els8
          in window_scrollTo (scrollPos m)
               (s2\<lparr>menu := Some (m\<lparr>isOpen := False\<rparr>), elements := els9\<rparr>))"

text \<open>The callback of the timer that \<open>closeMenu\<close> sets.\<close>

definition hideMobileMenu :: "page \<Rightarrow> page" where
  "hideMobileMenu s =
     (case menu s of
        None \<Rightarrow> s
      | Some m \<Rightarrow> s\<lparr>elements := modify (mobileMenu m) (style_set ''display'' ''none'') (elements s)\<rparr>)"

definition toggle :: "page \<Rightarrow> page" where
  "toggle s =
     (case menu s of
        None \<Rightarrow> s
      | Some m \<Rightarrow> if isOpen m then closeMenu s else openMenu s)"

definition initMobileMenu :: "page \<Rightarrow> js_error + page" where
  "initMobileMenu s =
     (let menuBtn_ref = querySelector (elements s) (Id ''menu-btn'');
          mainHeader_ref = querySelector (elements s) (Id ''main-header'');
          mobileMenu_ref = querySelector (elements s) (Id ''mobile-menu'')
      in if menuBtn_ref = None \<or> mainHeader_ref = None \<or> mobileMenu_ref = None
         then Inr (console_warn ''Menu elements not found'' s)
         else
           and_then (deref menuBtn_ref) (\<lambda>b.
           and_then (deref mainHeader_ref) (\<lambda>h.
           and_then (deref mobileMenu_ref) (\<lambda>m.
             let s1 = (console_log ''Mobile menu initialized'' s)
                        \<lparr>menu := Some \<lparr>menuBtn = b, mainHeader = h, mobileMenu = m,
                                        isOpen = False, scrollPos = 0\<rparr>\<rparr>;
                 s2 = addEventListener (Elem b) ''click'' MenuBtnClick s1;
                 s3 = s2\<lparr>toggleMenu_global := True\<rparr>;
                 menuLinks = element_querySelectorAll (elements s3) m HashLink;
                 s4 = fold (\<lambda>link. addEventListener (Elem link) ''click'' MenuLinkClick) menuLinks s3;
                 closeBtn = element_querySelector (elements s4) m (Tag ''button'')
             in Inr (case closeBtn of
                       None \<Rightarrow> s4
                     | Some cb \<Rightarrow>
                         if cb \<noteq> b then addEventListener (Elem cb) ''click'' CloseBtnClick s4 else s4)))))"

section \<open>Viewport height\<close>

text \<open>
  \<open>num h\<close> stands for the text that JavaScript gives the number \<^verbatim>\<open>h * 0.01\<close>. The
  product is a double and its text the shortest one that reads back as that double;
  neither is computed here, so \<open>num\<close> is a parameter and every statement holds for
  each function put in its place.
\<close>

definition setVH :: "(nat \<Rightarrow> string) \<Rightarrow> page \<Rightarrow> page" where
  "setVH num s =
     (let vh = num (innerHeight s)
      in s\<lparr>elements := modify (documentElement s) (style_set ''--vh'' (vh @ ''px'')) (elements s)\<rparr>)"

definition initViewportFix :: "(nat \<Rightarrow> string) \<Rightarrow> page \<Rightarrow> js_error + page" where
  "initViewportFix num s =
     Inr (addEventListener Window ''orientationchange'' SetVH
           (addEventListener Window ''resize'' SetVH (setVH num s)))"

section \<open>Animations\<close>

text \<open>
  The animation library is not part of the script. What the script hands over to it
  is recorded call by call in \<open>gsap_calls\<close>, with the scroll trigger of each call;
  durations, easings and offsets are left out, and what the library then does to the
  page is outside this development.
\<close>

definition is_digit :: "char \<Rightarrow> bool" where
  "is_digit c = (48 \<le> (of_char c :: nat) \<and> (of_char c :: nat) \<le> 57)"

definition is_space :: "char \<Rightarrow> bool" where
  "is_space c = ((of_char c :: nat) \<in> {9, 10, 11, 12, 13, 32})"

definition js_parseInt :: "string \<Rightarrow> int option" where
  "js_parseInt str =
     (let t = dropWhile is_space str;
          neg = (case t of c # _ \<Rightarrow> c = CHR ''-'' | [] \<Rightarrow> False);
          r = (case t of c # cs \<Rightarrow> if c = CHR ''-'' \<or> c = CHR ''+'' then cs else t | [] \<Rightarrow> t);
          ds = takeWhile is_digit r
      in if ds = [] then None
         else Some ((if neg then - 1 else 1) *
                    int (foldl (\<lambda>a c. 10 * a + ((of_char c :: nat) - 48)) 0 ds)))"

definition counter_target :: "element \<Rightarrow> int option" where
  "counter_target e =
     js_parseInt (case attrs e ''data-target'' of
                    None \<Rightarrow> ''0''
                  | Some v \<Rightarrow> if v = '''' then ''0'' else v)"

definition gsap_call :: "gsap_call \<Rightarrow> page \<Rightarrow> page" where
  "gsap_call c s = s\<lparr>gsap_calls := gsap_calls s @ [c]\<rparr>"

definition initAnimations :: "page \<Rightarrow> page" where
  "initAnimations s =
     (let s1 = console_log ''Initializing animations'' s;
          revealTexts = querySelectorAll (elements s1) (Class ''reveal-text'');
          s2 = (if 0 < length revealTexts then gsap_call (GsapFrom revealTexts None) s1 else s1);
          revealOpacity = querySelectorAll (elements s2) (Class ''reveal-opacity'');
          s3 = (if 0 < length revealOpacity then gsap_call (GsapFrom revealOpacity None) s2 else s2);
          fadeUps = querySelectorAll (elements s3) (Class ''gsap-fade-up'');
          s4 = fold (\<lambda>section. gsap_call (GsapFromTo section
                       \<lparr>trigger = section, start = ''top 85%'',
                        toggleActions = ''play none none reverse'', once = False\<rparr>)) fadeUps s3;
          projects = querySelectorAll (elements s4) (Class ''project-card'');
          s5 = fold (\<lambda>card. gsap_call (GsapFrom [card]
                       (Some \<lparr>trigger = card, start = ''top 90%'', toggleActions = '''', once = False\<rparr>)))
                 projects s4;
          counters = querySelectorAll (elements s5) (Class ''counter'');
          s6 = fold (\<lambda>counter. gsap_call (GsapToCounter counter (counter_target (elements s5 ! counter))
                       \<lparr>trigger = counter, start = ''top 85%'', toggleActions = '''', once = True\<rparr>))
                 counters s5
      in console_log ''Animations initialized'' s6)"

text \<open>The callback of the timer that \<open>initAll\<close> sets.\<close>

definition gsapCheck :: "page \<Rightarrow> page" where
  "gsapCheck s =
     (if gsap_loaded s
      then initAnimations (console_log ''GSAP loaded'' (gsap_call RegisterPlugin s))
      else console_warn ''GSAP not loaded, skipping animations'' s)"

section \<open>Accordion set-up and start of the page\<close>

definition initAccordion :: "page \<Rightarrow> js_error + page" where
  "initAccordion s =
     Inr (setTimeout OpenFirstAccordion 300
           ((console_log ''Accordion initialized'' s)\<lparr>toggleAccordion_global := True\<rparr>))"

text \<open>The callback of the timer that \<open>initAccordion\<close> sets.\<close>

definition openFirstAccordion :: "page \<Rightarrow> page" where
  "openFirstAccordion s =
     (case querySelector (elements s) (Class ''accordion-item'') of
        None \<Rightarrow> s
      | Some first \<Rightarrow> if toggleAccordion_global s then toggleAccordion first s else s)"

definition initAll :: "(nat \<Rightarrow> string) \<Rightarrow> page \<Rightarrow> js_error + page" where
  "initAll num s =
     (let s1 = console_log ''Initializing website...'' s;
          s2 = setTimeout GsapCheck 100 s1
      in and_then (initNavigation s2) (\<lambda>s3.
         and_then (initMobileMenu s3) (\<lambda>s4.
         and_then (initAccordion s4) (\<lambda>s5.
         initViewportFix num s5))))"

section \<open>The browser's event loop\<close>

fun run_handler :: "(nat \<Rightarrow> string) \<Rightarrow> handler \<Rightarrow> page \<Rightarrow> page" where
  "run_handler num SetVH s = setVH num s"
| "run_handler num RequestTick s = requestTick s"
| "run_handler num MenuBtnClick s = toggle (console_log ''Menu button clicked'' s)"
| "run_handler num MenuLinkClick s = closeMenu (console_log ''Menu link clicked'' s)"
| "run_handler num CloseBtnClick s = closeMenu (console_log ''Close button clicked'' s)"

fun run_timer :: "timer_cb \<Rightarrow> page \<Rightarrow> page" where
  "run_timer GsapCheck s = gsapCheck s"
| "run_timer HideMobileMenu s = hideMobileMenu s"
| "run_timer OpenFirstAccordion s = openFirstAccordion s"

fun run_raf :: "raf_cb \<Rightarrow> page \<Rightarrow> page" where
  "run_raf UpdateNav s = updateNav s"

definition handlers_for :: "target \<Rightarrow> string \<Rightarrow> page \<Rightarrow> handler list" where
  "handlers_for t ev s = map (\<lambda>(_, _, h). h) (filter (\<lambda>(t', ev', _). t' = t \<and> ev' = ev) (listeners s))"

definition dispatchEvent :: "(nat \<Rightarrow> string) \<Rightarrow> target \<Rightarrow> string \<Rightarrow> page \<Rightarrow> page" where
  "dispatchEvent num t ev s = fold (run_handler num) (handlers_for t ev s) s"

text \<open>
  What the browser can do to the page once the script has run: the user scrolls to an
  offset, an animation frame runs the pending frame callbacks, the window changes
  height, a pending timer fires (in any order), a click reaches the listeners of an
  element (a click on a descendant that bubbles up to the element counts as one), or
  inline markup calls one of the two published functions.
\<close>

datatype event =
    Scroll nat
  | AnimationFrame
  | Resize nat
  | OrientationChange nat
  | Timeout nat
  | Click nat
  | CallToggleMenu
  | CallToggleAccordion nat

fun step :: "(nat \<Rightarrow> string) \<Rightarrow> event \<Rightarrow> page \<Rightarrow> page" where
  "step num (Scroll y) s = dispatchEvent num Window ''scroll'' (s\<lparr>pageYOffset := y, docScrollTop := y\<rparr>)"
| "step num AnimationFrame s = fold run_raf (rafs s) (s\<lparr>rafs := []\<rparr>)"
| "step num (Resize h) s = dispatchEvent num Window ''resize'' (s\<lparr>innerHeight := h\<rparr>)"
| "step num (OrientationChange h) s = dispatchEvent num Window ''orientationchange'' (s\<lparr>innerHeight := h\<rparr>)"
| "step num (Timeout k) s =
     (if k < length (timers s)
      then run_timer (snd (timers s ! k)) (s\<lparr>timers := take k (timers s) @ drop (Suc k) (timers s)\<rparr>)
      else s)"
| "step num (Click i) s = dispatchEvent num (Elem i) ''click'' s"
| "step num CallToggleMenu s = (if toggleMenu_global s then toggle s else s)"
| "step num (CallToggleAccordion el) s = (if toggleAccordion_global s then toggleAccordion el s else s)"

definition run :: "(nat \<Rightarrow> string) \<Rightarrow> event list \<Rightarrow> page \<Rightarrow> page" where
  "run num evs s = fold (step num) evs s"

section \<open>Predicates of the statements\<close>

text \<open>
  The two appearances of the navigation bar: it carries all classes of one set and
  none of the other.
\<close>

definition pill_mode :: "element \<Rightarrow> bool" where
  "pill_mode e = (set pill_classes \<subseteq> set (classes e) \<and> set expanded_classes \<inter> set (classes e) = {})"

definition expanded_mode :: "element \<Rightarrow> bool" where
  "expanded_mode e = (set expanded_classes \<subseteq> set (classes e) \<and> set pill_classes \<inter> set (classes e) = {})"

text \<open>A page on which the script has not run yet.\<close>

definition fresh :: "page \<Rightarrow> bool" where
  "fresh s = (nav s = None \<and> menu s = None \<and> rafs s = [] \<and> timers s = [] \<and> listeners s = [] \<and>
     \<not> toggleMenu_global s \<and> \<not> toggleAccordion_global s)"


text \<open>
  What an operation outside the navigation feature leaves alone: the closure, the
  pending frame callbacks, and on every element the classes of the two navigation
  sets. The classes that the menu and the accordion add or remove are other ones.
\<close>

definition same_nav_classes :: "element list \<Rightarrow> element list \<Rightarrow> bool" where
  "same_nav_classes els els' =
     (length els' = length els \<and>
      (\<forall>k c. k < length els \<and> c \<in> set pill_classes \<union> set expanded_classes \<longrightarrow>
         (c \<in> set (classes (els' ! k))) = (c \<in> set (classes (els ! k)))))"

definition keeps_nav :: "page \<Rightarrow> page \<Rightarrow> bool" where
  "keeps_nav s s' =
     (nav s' = nav s \<and> rafs s' = rafs s \<and> same_nav_classes (elements s) (elements s'))"

definition other_classes :: "string set" where
  "other_classes = {''opacity-0'', ''pointer-events-none'', ''mobile-menu-open'', ''rotate-45'',
     ''text-blue-600'', ''border-blue-500'', ''shadow-md''}"

text \<open>
  The invariants of the navigation feature. A frame callback is pending exactly while
  \<open>ticking\<close> is set, and a set \<open>isScrolled\<close> flag means the bar is in pill mode. On a
  page whose markup had the bar in expanded mode, a clear flag means that it still is.
\<close>

definition nav_inv :: "page \<Rightarrow> bool" where
  "nav_inv s =
     (case nav s of
        None \<Rightarrow> rafs s = []
      | Some n \<Rightarrow>
          navbar n < length (elements s) \<and>
          rafs s = (if ticking n then [UpdateNav] else []) \<and>
          (isScrolled n \<longrightarrow> pill_mode (elements s ! navbar n)))"

definition nav_inv_expanded :: "page \<Rightarrow> bool" where
  "nav_inv_expanded s =
     (case nav s of
        None \<Rightarrow> True
      | Some n \<Rightarrow> navbar n < length (elements s) \<and>
          (\<not> isScrolled n \<longrightarrow> expanded_mode (elements s ! navbar n)))"

text \<open>What no event changes: the listeners, the root reference and the number of elements.\<close>

definition keeps_wiring :: "page \<Rightarrow> page \<Rightarrow> bool" where
  "keeps_wiring s s' =
     (listeners s' = listeners s \<and> documentElement s' = documentElement s \<and>
      length (elements s') = length (elements s))"


section \<open>Example pages\<close>

text \<open>Small concrete pages on which the statements below are evaluated.\<close>

definition blank :: "string \<Rightarrow> string \<Rightarrow> string list \<Rightarrow> nat \<Rightarrow> element" where
  "blank t i cs d = \<lparr>tag = t, ident = i, classes = cs, style = (\<lambda>_. []), attrs = (\<lambda>_. None),
     scrollHeight = 0, depth = d\<rparr>"

definition empty_page :: "element list \<Rightarrow> page" where
  "empty_page els = \<lparr>elements = els, documentElement = 0, body = 1, pageYOffset = 0, docScrollTop = 0,
     innerHeight = 800, console = [], listeners = [], timers = [], rafs = [], nav = None, menu = None,
     toggleMenu_global = False, toggleAccordion_global = False, gsap_loaded = False, gsap_calls = []\<rparr>"

text \<open>Two accordion items; the panel of the first is open at 120 pixels.\<close>

definition accordion_page :: page where
  "accordion_page = empty_page
     [blank ''html'' [] [] 0,
      blank ''body'' [] [] 1,
      blank ''div'' [] [''accordion-item''] 2,
      style_set ''height'' ''120px'' (blank ''div'' [] [''accordion-content''] 3),
      blank ''div'' [] [''accordion-item''] 2,
      (blank ''div'' [] [''accordion-content''] 3)\<lparr>scrollHeight := 80\<rparr>]"

text \<open>A navigation bar and a main header; the bar has no class at all.\<close>

definition plain_nav_page :: page where
  "plain_nav_page = empty_page
     [blank ''html'' [] [] 0,
      blank ''body'' [] [] 1,
      blank ''nav'' ''navbar'' [] 2,
      blank ''header'' ''main-header'' [] 2]"

text \<open>The same with the bar's markup in expanded mode.\<close>

definition styled_nav_page :: page where
  "styled_nav_page = empty_page
     [blank ''html'' [] [] 0,
      blank ''body'' [] [] 1,
      blank ''nav'' ''navbar'' [''fixed'', ''max-w-[92%]'', ''md:max-w-7xl'', ''bg-transparent''] 2,
      blank ''header'' ''main-header'' [] 2]"

text \<open>A page with nothing but its root and its body.\<close>

definition bare_page :: page where
  "bare_page = empty_page [blank ''html'' [] [] 0, blank ''body'' [] [] 1]"

text \<open>
  A stand-in for the number text of the viewport fix: on window heights that are
  multiples of 100 the hundredth is a whole number.
\<close>

definition whole_vh :: "nat \<Rightarrow> string" where
  "whole_vh h = string_of_nat (h div 100)"

text \<open>A page with a navigation bar and no main header.\<close>

definition no_header_page :: page where
  "no_header_page = empty_page
     [blank ''html'' [] [] 0,
      blank ''body'' [] [] 1,
      blank ''nav'' ''navbar'' [''max-w-[92%]'', ''md:max-w-7xl'', ''bg-transparent''] 2]"

text \<open>A page with a header, the menu button in it, and a menu panel holding a link and a close button.\<close>

definition menu_page :: page where
  "menu_page = empty_page
     [blank ''html'' [] [] 0,
      blank ''body'' [] [] 1,
      blank ''header'' ''main-header'' [] 2,
      blank ''button'' ''menu-btn'' [] 3,
      blank ''div'' ''mobile-menu'' [''opacity-0'', ''pointer-events-none''] 2,
      (blank ''a'' [] [] 3)\<lparr>attrs := [''href'' \<mapsto> ''#about'']\<rparr>,
      blank ''button'' [] [] 3]"

text \<open>The same page after the menu feature is set up, scrolled to offset 240.\<close>

definition menu_ready :: page where
  "menu_ready = (projr (initMobileMenu menu_page))\<lparr>pageYOffset := 240\<rparr>"

section \<open>Facts about the store\<close>

lemma length_modify [simp]: "length (modify i f els) = length els"
  by (simp add: modify_def)

lemma nth_modify: "j < length els \<Longrightarrow> modify i f els ! j = (if i = j then f (els ! j) else els ! j)"
  by (simp add: modify_def)

lemma length_forEach:
  assumes "\<And>j d. length (g j d) = length d"
  shows "length (forEach js g els) = length els"
  unfolding forEach_def using assms by (induction js arbitrary: els) simp_all

text \<open>A loop whose body leaves a projection of element \<open>k\<close> alone leaves it alone as a whole.\<close>

lemma forEach_frame:
  assumes len: "\<And>j d. length (g j d) = length d"
    and keep: "\<And>j d. k < length d \<Longrightarrow> proj (g j d ! k) = proj (d ! k)"
    and k: "k < length els"
  shows "proj (forEach js g els ! k) = proj (els ! k)"
  unfolding forEach_def using k
proof (induction js arbitrary: els)
  case Nil
  then show ?case by simp
next
  case (Cons j js)
  have "k < length (g j els)" using Cons.prems len by simp
  then have "proj (fold g js (g j els) ! k) = proj (g j els ! k)"
    by (rule Cons.IH)
  also have "\<dots> = proj (els ! k)" using Cons.prems by (rule keep)
  finally show ?case by simp
qed

lemma nth_forEach_if:
  "distinct js \<Longrightarrow> k < length els \<Longrightarrow>
   forEach js (\<lambda>item d. if P item then modify item f d else d) els ! k =
     (if k \<in> set js \<and> P k then f (els ! k) else els ! k)"
  unfolding forEach_def
proof (induction js arbitrary: els)
  case Nil
  then show ?case by simp
next
  case (Cons j js)
  then show ?case by (auto simp: nth_modify)
qed

lemma distinct_querySelectorAll [simp]: "distinct (querySelectorAll els sel)"
  by (simp add: querySelectorAll_def)

lemma set_querySelectorAll:
  "set (querySelectorAll els sel) = {j. j < length els \<and> matches sel (els ! j)}"
  by (auto simp: querySelectorAll_def)

lemma set_descendants_bound: "j \<in> set (descendants els i) \<Longrightarrow> j < length els"
proof -
  assume a: "j \<in> set (descendants els i)"
  have "length (takeWhile (\<lambda>e. depth (els ! i) < depth e) (drop (Suc i) els)) \<le> length els - Suc i"
    using length_takeWhile_le [of "\<lambda>e. depth (els ! i) < depth e" "drop (Suc i) els"] by simp
  with a show ?thesis
    by (auto simp: descendants_def split: if_splits)
qed

lemma first_of_Some: "first_of js = Some j \<Longrightarrow> j \<in> set js"
  by (cases js) (simp_all add: first_of_def)

lemma element_querySelector_Some:
  "element_querySelector els i sel = Some c \<Longrightarrow> c < length els \<and> matches sel (els ! c)"
  by (auto simp: element_querySelector_def element_querySelectorAll_def
      dest!: first_of_Some dest: set_descendants_bound)

lemma querySelector_Some:
  "querySelector els sel = Some c \<Longrightarrow> c < length els \<and> matches sel (els ! c)"
  using set_querySelectorAll [of els sel]
  by (auto simp: querySelector_def dest!: first_of_Some)

lemma style_simps [simp]:
  "style (classList_add ts e) = style e"
  "style (classList_remove ts e) = style e"
  "style (setAttribute a v e) = style e"
  "style (style_set p v e) q = (if q = p then v else style e q)"
  by (simp_all add: classList_add_def classList_remove_def setAttribute_def style_set_def)

lemma classes_simps [simp]:
  "classes (style_set p v e) = classes e"
  "classes (setAttribute a v e) = classes e"
  "set (classes (classList_remove ts e)) = set (classes e) - set ts"
  by (auto simp: classList_remove_def setAttribute_def style_set_def)

lemma set_fold_add:
  "set (fold (\<lambda>t cs. if t \<in> set cs then cs else cs @ [t]) ts cs) = set cs \<union> set ts"
  by (induction ts arbitrary: cs) auto

lemma set_classes_add [simp]: "set (classes (classList_add ts e)) = set (classes e) \<union> set ts"
  by (simp add: classList_add_def set_fold_add)

lemma scrollHeight_simps [simp]:
  "scrollHeight (classList_add ts e) = scrollHeight e"
  "scrollHeight (classList_remove ts e) = scrollHeight e"
  "scrollHeight (setAttribute a v e) = scrollHeight e"
  "scrollHeight (style_set p v e) = scrollHeight e"
  by (simp_all add: classList_add_def classList_remove_def setAttribute_def style_set_def)

section \<open>Accordion: one open panel\<close>

lemma length_close_others [simp]: "length (close_others els el c icon) = length els"
  by (simp add: close_others_def length_forEach)

lemma close_others_height:
  assumes k: "k < length els"
  shows "style (close_others els el c icon ! k) ''height'' =
     (if k \<noteq> c \<and> matches (Class ''accordion-content'') (els ! k) then ''0px''
      else style (els ! k) ''height'')"
proof -
  let ?els1 = "forEach (querySelectorAll els (Class ''accordion-content''))
             (\<lambda>item d. if item \<noteq> c then modify item (style_set ''height'' ''0px'') d else d) els"
  let ?els2 = "forEach (querySelectorAll els (Class ''icon-toggle''))
          (\<lambda>item d. if Some item \<noteq> icon
             then modify item (setAttribute ''icon'' ''solar:add-linear'')
                    (modify item (classList_remove [''rotate-45'', ''text-blue-600'']) d)
             else d) ?els1"
  have l1: "length ?els1 = length els" by (simp add: length_forEach)
  have l2: "length ?els2 = length els" by (simp add: length_forEach)
  have "style (close_others els el c icon ! k) ''height'' = style (?els2 ! k) ''height''"
    unfolding close_others_def
    by (rule forEach_frame [where proj = "\<lambda>e. style e ''height''"])
       (simp_all add: nth_modify k l2)
  also have "\<dots> = style (?els1 ! k) ''height''"
    by (rule forEach_frame [where proj = "\<lambda>e. style e ''height''"])
       (simp_all add: nth_modify k l1)
  also have "\<dots> = (if k \<noteq> c \<and> matches (Class ''accordion-content'') (els ! k) then ''0px''
      else style (els ! k) ''height'')"
    using k by (simp add: nth_forEach_if set_querySelectorAll)
  finally show ?thesis .
qed

lemma close_others_frame:
  assumes k: "k < length els"
    and f1: "\<And>e p v. proj (style_set p v e) = proj e"
    and f2: "\<And>e a v. proj (setAttribute a v e) = proj e"
    and f3: "\<And>e. proj (classList_remove [''rotate-45'', ''text-blue-600''] e) = proj e"
    and f4: "\<And>e. proj (classList_remove [''border-blue-500'', ''shadow-md''] e) = proj e"
  shows "proj (close_others els el c icon ! k) = proj (els ! k)"
proof -
  let ?els1 = "forEach (querySelectorAll els (Class ''accordion-content''))
             (\<lambda>item d. if item \<noteq> c then modify item (style_set ''height'' ''0px'') d else d) els"
  let ?els2 = "forEach (querySelectorAll els (Class ''icon-toggle''))
          (\<lambda>item d. if Some item \<noteq> icon
             then modify item (setAttribute ''icon'' ''solar:add-linear'')
                    (modify item (classList_remove [''rotate-45'', ''text-blue-600'']) d)
             else d) ?els1"
  have l1: "length ?els1 = length els" by (simp add: length_forEach)
  have l2: "length ?els2 = length els" by (simp add: length_forEach)
  have "proj (close_others els el c icon ! k) = proj (?els2 ! k)"
    unfolding close_others_def
    by (rule forEach_frame [where proj = proj]) (simp_all add: nth_modify k l2 f4)
  also have "\<dots> = proj (?els1 ! k)"
    by (rule forEach_frame [where proj = proj]) (simp_all add: nth_modify k l1 f2 f3)
  also have "\<dots> = proj (els ! k)"
    by (rule forEach_frame [where proj = proj]) (simp_all add: nth_modify k f1)
  finally show ?thesis .
qed

lemma toggleAccordion_unfold:
  assumes c: "element_querySelector (elements s) el (Class ''accordion-content'') = Some c"
  shows "elements (toggleAccordion el s) =
    (let icon = element_querySelector (elements s) el (Class ''icon-toggle'');
         els3 = close_others (elements s) el c icon;
         h = style (els3 ! c) ''height''
     in if h = ''0px'' \<or> h = ''''
        then modify el (classList_add [''border-blue-500'', ''shadow-md''])
               ((case icon of
                   Some i \<Rightarrow> modify i (classList_add [''rotate-45'', ''text-blue-600''])
                 | None \<Rightarrow> id)
                  (modify c (style_set ''height'' (string_of_nat (scrollHeight (els3 ! c)) @ ''px'')) els3))
        else modify el (classList_remove [''border-blue-500'', ''shadow-md''])
               ((case icon of
                   Some i \<Rightarrow> modify i (classList_remove [''rotate-45'', ''text-blue-600''])
                 | None \<Rightarrow> id)
                  (modify c (style_set ''height'' ''0px'') els3)))"
  using c by (simp add: toggleAccordion_def close_others_def Let_def split: option.splits)

lemma length_toggleAccordion [simp]: "length (elements (toggleAccordion el s)) = length (elements s)"
proof (cases "element_querySelector (elements s) el (Class ''accordion-content'')")
  case None
  then show ?thesis by (simp add: toggleAccordion_def)
next
  case (Some c)
  show ?thesis
    by (simp add: toggleAccordion_unfold [OF Some] Let_def split: option.splits)
qed

lemma toggleAccordion_height:
  assumes c: "element_querySelector (elements s) el (Class ''accordion-content'') = Some c"
    and k: "k < length (elements s)"
  shows "style (elements (toggleAccordion el s) ! k) ''height'' =
     (if k = c then (if nonzero_height (elements s ! c) then ''0px''
                     else string_of_nat (scrollHeight (elements s ! c)) @ ''px'')
      else if matches (Class ''accordion-content'') (elements s ! k) then ''0px''
      else style (elements s ! k) ''height'')"
proof -
  have cl: "c < length (elements s)"
    using element_querySelector_Some [OF c] by simp
  have sh: "scrollHeight (close_others (elements s) el c icon ! c) = scrollHeight (elements s ! c)" for icon
    by (rule close_others_frame) (simp_all add: cl)
  show ?thesis
    using k cl
    by (simp add: toggleAccordion_unfold [OF c] Let_def nth_modify close_others_height sh
        nonzero_height_def split: option.splits)
qed

lemma close_others_is_content:
  "k < length els \<Longrightarrow>
   (''accordion-content'' \<in> set (classes (close_others els el c icon ! k))) =
   (''accordion-content'' \<in> set (classes (els ! k)))"
  by (rule close_others_frame [where proj = "\<lambda>e. ''accordion-content'' \<in> set (classes e)"])
     simp_all

lemma toggleAccordion_is_content:
  assumes k: "k < length (elements s)"
  shows "matches (Class ''accordion-content'') (elements (toggleAccordion el s) ! k) =
         matches (Class ''accordion-content'') (elements s ! k)"
proof (cases "element_querySelector (elements s) el (Class ''accordion-content'')")
  case None
  then show ?thesis by (simp add: toggleAccordion_def)
next
  case (Some c)
  show ?thesis
    using k
    by (simp add: toggleAccordion_unfold [OF Some] Let_def nth_modify close_others_is_content
          split: option.splits)
qed

lemma open_panels_subset:
  assumes c: "element_querySelector (elements s) el (Class ''accordion-content'') = Some c"
  shows "set (open_panels (toggleAccordion el s)) \<subseteq> {c}"
proof
  fix j assume "j \<in> set (open_panels (toggleAccordion el s))"
  then have j: "j < length (elements s)"
    and m: "matches (Class ''accordion-content'') (elements (toggleAccordion el s) ! j)"
    and nz: "nonzero_height (elements (toggleAccordion el s) ! j)"
    by (auto simp: open_panels_def set_querySelectorAll)
  from m j have m0: "matches (Class ''accordion-content'') (elements s ! j)"
    by (simp only: toggleAccordion_is_content)
  show "j \<in> {c}"
  proof (rule ccontr)
    assume "j \<notin> {c}"
    then have "style (elements (toggleAccordion el s) ! j) ''height'' = ''0px''"
      using m0 j by (simp add: toggleAccordion_height [OF c])
    with nz show False by (simp add: nonzero_height_def)
  qed
qed

lemma distinct_open_panels: "distinct (open_panels s)"
  by (simp add: open_panels_def)

lemma length_le_1_if_subset_singleton:
  assumes d: "distinct xs" and s: "set xs \<subseteq> {c}"
  shows "length xs \<le> 1"
proof -
  have "length xs = card (set xs)" using d by (simp add: distinct_card)
  also have "\<dots> \<le> card {c}" using s by (intro card_mono) simp_all
  finally show ?thesis by simp
qed

text \<open>
  Claim C1. When \<open>toggleAccordion\<close> is called on an element that has an
  \<^verbatim>\<open>.accordion-content\<close> descendant \<open>c\<close>, then after the call at most one
  \<^verbatim>\<open>.accordion-content\<close> element of the page has a non-zero inline height; the
  content of every panel that was open before the call has height \<^verbatim>\<open>0px\<close>
  afterwards, whether it belongs to another panel or to the toggled one; and a
  toggled panel that was closed gets its scroll height in pixels.
\<close>

theorem toggleAccordion_single_open:
  assumes c: "element_querySelector (elements s) el (Class ''accordion-content'') = Some c"
  shows "length (open_panels (toggleAccordion el s)) \<le> 1 \<and>
    (\<forall>a ca. element_querySelector (elements s) a (Class ''accordion-content'') = Some ca \<and>
        nonzero_height (elements s ! ca) \<longrightarrow>
        style (elements (toggleAccordion el s) ! ca) ''height'' = ''0px'') \<and>
    (nonzero_height (elements s ! c) \<longrightarrow>
        style (elements (toggleAccordion el s) ! c) ''height'' = ''0px'') \<and>
    (\<not> nonzero_height (elements s ! c) \<longrightarrow>
        style (elements (toggleAccordion el s) ! c) ''height'' =
          string_of_nat (scrollHeight (elements s ! c)) @ ''px'')"
proof (intro conjI allI impI)
  show "length (open_panels (toggleAccordion el s)) \<le> 1"
    using distinct_open_panels open_panels_subset [OF c] by (rule length_le_1_if_subset_singleton)
next
  fix a ca
  assume a: "element_querySelector (elements s) a (Class ''accordion-content'') = Some ca \<and>
        nonzero_height (elements s ! ca)"
  then have "ca < length (elements s)" "matches (Class ''accordion-content'') (elements s ! ca)"
    using element_querySelector_Some by blast+
  moreover from a have "nonzero_height (elements s ! ca)" by simp
  ultimately show "style (elements (toggleAccordion el s) ! ca) ''height'' = ''0px''"
    by (auto simp: toggleAccordion_height [OF c])
next
  have cl: "c < length (elements s)" using element_querySelector_Some [OF c] by simp
  { assume "nonzero_height (elements s ! c)"
    then show "style (elements (toggleAccordion el s) ! c) ''height'' = ''0px''"
      using cl by (simp add: toggleAccordion_height [OF c]) }
  { assume "\<not> nonzero_height (elements s ! c)"
    then show "style (elements (toggleAccordion el s) ! c) ''height'' =
          string_of_nat (scrollHeight (elements s ! c)) @ ''px''"
      using cl by (simp add: toggleAccordion_height [OF c]) }
qed

text \<open>
  On the example page the first panel is open at 120 pixels. Toggling the second item
  closes the first panel and opens the second at its scroll height of 80 pixels.
\<close>

theorem toggleAccordion_single_open_witness:
  "element_querySelector (elements accordion_page) 4 (Class ''accordion-content'') = Some 5 \<and>
   length (open_panels (toggleAccordion 4 accordion_page)) \<le> 1 \<and>
   style (elements (toggleAccordion 4 accordion_page) ! 3) ''height'' = ''0px'' \<and>
   style (elements (toggleAccordion 4 accordion_page) ! 5) ''height'' = ''80px''"
proof -
  have w1: "element_querySelector (elements accordion_page) 4 (Class ''accordion-content'') = Some 5"
    by code_simp
  have w2: "element_querySelector (elements accordion_page) 2 (Class ''accordion-content'') = Some 3"
    by code_simp
  have w3: "nonzero_height (elements accordion_page ! 3)"
    by code_simp
  have w4: "\<not> nonzero_height (elements accordion_page ! 5)"
    by code_simp
  have w5: "string_of_nat (scrollHeight (elements accordion_page ! 5)) = ''80''"
    by code_simp
  show ?thesis
    using toggleAccordion_single_open [OF w1] w1 w2 w3 w4 w5 by auto
qed

text \<open>
  Claim C9. When the element passed to \<open>toggleAccordion\<close> has no
  \<^verbatim>\<open>.accordion-content\<close> descendant, the call returns before the close-others
  phase: the page, with every content height, icon class and attribute and item
  class, is exactly as before.
\<close>

theorem toggleAccordion_no_content:
  assumes "element_querySelector (elements s) el (Class ''accordion-content'') = None"
  shows "toggleAccordion el s = s"
  using assms by (simp add: toggleAccordion_def)

text \<open>
  On the example page the first content element has no descendant at all; passing it
  leaves the open panel open.
\<close>

theorem toggleAccordion_no_content_witness:
  "element_querySelector (elements accordion_page) 3 (Class ''accordion-content'') = None \<and>
   toggleAccordion 3 accordion_page = accordion_page"
proof -
  have w: "element_querySelector (elements accordion_page) 3 (Class ''accordion-content'') = None"
    by code_simp
  show ?thesis
    using toggleAccordion_no_content [OF w] w by simp
qed

section \<open>Navigation bar: classes and throttling\<close>

lemma pill_expanded_disjoint: "set pill_classes \<inter> set expanded_classes = {}"
  by (simp add: pill_classes_def expanded_classes_def)

lemma pill_mode_swap: "pill_mode (classList_add pill_classes (classList_remove expanded_classes e))"
  using pill_expanded_disjoint by (auto simp: pill_mode_def)

lemma expanded_mode_swap: "expanded_mode (classList_remove pill_classes (classList_add expanded_classes e))"
  using pill_expanded_disjoint by (auto simp: expanded_mode_def)

lemma page_simps [simp]:
  "elements (console_log m s) = elements s"
  "nav (console_log m s) = nav s"
  "rafs (console_log m s) = rafs s"
  "listeners (console_log m s) = listeners s"
  "pageYOffset (console_log m s) = pageYOffset s"
  "docScrollTop (console_log m s) = docScrollTop s"
  by (simp_all add: console_log_def)

lemma updateNav_elements:
  assumes "nav s = Some n"
  shows "elements (updateNav s) =
    (if 50 < scrollY_of s \<and> \<not> isScrolled n
     then modify (navbar n) (classList_add pill_classes \<circ> classList_remove expanded_classes) (elements s)
     else if scrollY_of s \<le> 50 \<and> isScrolled n
     then modify (navbar n) (classList_remove pill_classes \<circ> classList_add expanded_classes) (elements s)
     else elements s)"
  using assms
  by (cases "navbar n < length (elements s)")
     (simp_all add: updateNav_def Let_def modify_def list_update_beyond not_less)

lemma updateNav_nav:
  assumes "nav s = Some n"
  shows "nav (updateNav s) = Some (n\<lparr>isScrolled := (50 < scrollY_of s), ticking := False\<rparr>)"
  using assms by (auto simp: updateNav_def Let_def)

subsection \<open>Operations that leave the navigation alone\<close>

lemma same_nav_classes_refl [simp]: "same_nav_classes els els"
  by (simp add: same_nav_classes_def)

lemma same_nav_classes_trans:
  "same_nav_classes a b \<Longrightarrow> same_nav_classes b c \<Longrightarrow> same_nav_classes a c"
  by (simp add: same_nav_classes_def)

lemma same_nav_classes_modify:
  assumes f: "\<And>e c. c \<in> set pill_classes \<union> set expanded_classes \<Longrightarrow>
             (c \<in> set (classes (f e))) = (c \<in> set (classes e))"
    and r: "same_nav_classes els els'"
  shows "same_nav_classes els (modify i f els')"
  using r f by (auto simp: same_nav_classes_def nth_modify)

lemma same_nav_classes_forEach:
  assumes g: "\<And>j d. same_nav_classes d (g j d)"
  shows "same_nav_classes els (forEach js g els)"
  unfolding forEach_def
proof (induction js arbitrary: els)
  case Nil
  show ?case by simp
next
  case (Cons j js)
  have "same_nav_classes els (g j els)" by (rule g)
  moreover have "same_nav_classes (g j els) (fold g js (g j els))" by (rule Cons.IH)
  ultimately show ?case using same_nav_classes_trans by simp
qed

lemma nav_class_names:
  "c \<in> set pill_classes \<union> set expanded_classes \<Longrightarrow> c \<notin> other_classes"
  by (auto simp: pill_classes_def expanded_classes_def other_classes_def)

lemma keeps_classes_add:
  assumes c: "c \<in> set pill_classes \<union> set expanded_classes" and ts: "set ts \<subseteq> other_classes"
  shows "(c \<in> set (classes (classList_add ts e))) = (c \<in> set (classes e))"
proof -
  have "c \<notin> set ts" using nav_class_names [OF c] ts by blast
  then show ?thesis by simp
qed

lemma keeps_classes_remove:
  assumes c: "c \<in> set pill_classes \<union> set expanded_classes" and ts: "set ts \<subseteq> other_classes"
  shows "(c \<in> set (classes (classList_remove ts e))) = (c \<in> set (classes e))"
proof -
  have "c \<notin> set ts" using nav_class_names [OF c] ts by blast
  then show ?thesis by simp
qed

lemma snc_style:
  "same_nav_classes els els' \<Longrightarrow> same_nav_classes els (modify i (style_set p v) els')"
  by (rule same_nav_classes_modify) simp_all

lemma snc_attr:
  "same_nav_classes els els' \<Longrightarrow> same_nav_classes els (modify i (setAttribute a v) els')"
  by (rule same_nav_classes_modify) simp_all

lemma snc_add:
  assumes ts: "set ts \<subseteq> other_classes" and r: "same_nav_classes els els'"
  shows "same_nav_classes els (modify i (classList_add ts) els')"
  by (rule same_nav_classes_modify [OF keeps_classes_add [OF _ ts] r])

lemma snc_remove:
  assumes ts: "set ts \<subseteq> other_classes" and r: "same_nav_classes els els'"
  shows "same_nav_classes els (modify i (classList_remove ts) els')"
  by (rule same_nav_classes_modify [OF keeps_classes_remove [OF _ ts] r])

lemma other_classes_subsets:
  "set [''opacity-0'', ''pointer-events-none''] \<subseteq> other_classes"
  "set [''mobile-menu-open''] \<subseteq> other_classes"
  "set [''rotate-45'', ''text-blue-600''] \<subseteq> other_classes"
  "set [''border-blue-500'', ''shadow-md''] \<subseteq> other_classes"
  by (simp_all add: other_classes_def)

lemmas snc_intros = snc_style snc_attr snc_add snc_remove same_nav_classes_refl

lemma keeps_nav_refl [simp]: "keeps_nav s s"
  by (simp add: keeps_nav_def)

lemma keeps_nav_trans: "keeps_nav s t \<Longrightarrow> keeps_nav t u \<Longrightarrow> keeps_nav s u"
  using same_nav_classes_trans by (auto simp: keeps_nav_def)

lemma keeps_nav_fold:
  assumes "\<And>x s. keeps_nav s (f x s)"
  shows "keeps_nav s (fold f xs s)"
proof (induction xs arbitrary: s)
  case Nil
  show ?case by simp
next
  case (Cons x xs)
  have "keeps_nav s (f x s)" by (rule assms)
  moreover have "keeps_nav (f x s) (fold f xs (f x s))" by (rule Cons.IH)
  ultimately show ?case using keeps_nav_trans by simp
qed

lemma keeps_nav_console_log [simp]: "keeps_nav s (console_log m s)"
  by (simp add: keeps_nav_def console_log_def)

lemma keeps_nav_console_warn [simp]: "keeps_nav s (console_warn m s)"
  by (simp add: keeps_nav_def console_warn_def)

lemma keeps_nav_setTimeout [simp]: "keeps_nav s (setTimeout cb ms s)"
  by (simp add: keeps_nav_def setTimeout_def)

lemma keeps_nav_gsap_call [simp]: "keeps_nav s (gsap_call c s)"
  by (simp add: keeps_nav_def gsap_call_def)

lemma keeps_nav_setVH [simp]: "keeps_nav s (setVH num s)"
  by (simp add: setVH_def Let_def keeps_nav_def snc_intros)

lemma keeps_nav_hideMobileMenu [simp]: "keeps_nav s (hideMobileMenu s)"
  by (simp add: hideMobileMenu_def keeps_nav_def snc_intros split: option.splits)

lemma keeps_nav_openMenu [simp]: "keeps_nav s (openMenu s)"
proof (cases "menu s")
  case None
  then show ?thesis by (simp add: openMenu_def)
next
  case (Some m)
  have "same_nav_classes (elements s) (elements (openMenu s))"
    unfolding openMenu_def Let_def Some
    by (simp add: console_log_def) (intro snc_intros other_classes_subsets)
  then show ?thesis
    by (simp add: keeps_nav_def openMenu_def Let_def Some console_log_def)
qed

lemma keeps_nav_closeMenu [simp]: "keeps_nav s (closeMenu s)"
proof (cases "menu s")
  case None
  then show ?thesis by (simp add: closeMenu_def)
next
  case (Some m)
  have "same_nav_classes (elements s) (elements (closeMenu s))"
    unfolding closeMenu_def Let_def Some
    by (simp add: console_log_def setTimeout_def window_scrollTo_def) (intro snc_intros other_classes_subsets)
  then show ?thesis
    by (simp add: keeps_nav_def closeMenu_def Let_def Some console_log_def setTimeout_def
        window_scrollTo_def)
qed

lemma keeps_nav_toggle [simp]: "keeps_nav s (toggle s)"
  by (simp add: toggle_def split: option.splits)

lemma same_nav_classes_close_others: "same_nav_classes els (close_others els el c icon)"
proof -
  let ?els1 = "forEach (querySelectorAll els (Class ''accordion-content''))
             (\<lambda>item d. if item \<noteq> c then modify item (style_set ''height'' ''0px'') d else d) els"
  let ?els2 = "forEach (querySelectorAll els (Class ''icon-toggle''))
          (\<lambda>item d. if Some item \<noteq> icon
             then modify item (setAttribute ''icon'' ''solar:add-linear'')
                    (modify item (classList_remove [''rotate-45'', ''text-blue-600'']) d)
             else d) ?els1"
  have 1: "same_nav_classes els ?els1"
    by (rule same_nav_classes_forEach) (auto intro!: snc_intros other_classes_subsets)
  have 2: "same_nav_classes ?els1 ?els2"
    by (rule same_nav_classes_forEach) (auto intro!: snc_intros other_classes_subsets)
  have 3: "same_nav_classes ?els2 (close_others els el c icon)"
    unfolding close_others_def
    by (rule same_nav_classes_forEach) (auto intro!: snc_intros other_classes_subsets)
  from 1 2 3 show ?thesis by (blast intro: same_nav_classes_trans)
qed

lemma toggleAccordion_fields:
  "nav (toggleAccordion el s) = nav s"
  "rafs (toggleAccordion el s) = rafs s"
  by (simp_all add: toggleAccordion_def Let_def split: option.splits)

lemma keeps_nav_toggleAccordion [simp]: "keeps_nav s (toggleAccordion el s)"
proof (cases "element_querySelector (elements s) el (Class ''accordion-content'')")
  case None
  then show ?thesis by (simp add: toggleAccordion_def)
next
  case (Some c)
  have "same_nav_classes (elements s) (elements (toggleAccordion el s))"
    unfolding toggleAccordion_unfold [OF Some] Let_def
    by (cases "element_querySelector (elements s) el (Class ''icon-toggle'')")
       (auto intro!: snc_intros other_classes_subsets same_nav_classes_close_others)
  then show ?thesis by (simp add: keeps_nav_def toggleAccordion_fields)
qed

lemma keeps_nav_addEventListener [simp]: "keeps_nav s (addEventListener t ev h s)"
  by (simp add: keeps_nav_def addEventListener_def)

lemma keeps_nav_fold':
  assumes "keeps_nav s t" and "\<And>x u. keeps_nav u (f x u)"
  shows "keeps_nav s (fold f xs t)"
  using assms(1) keeps_nav_fold [of f t xs, OF assms(2)] by (rule keeps_nav_trans)

lemmas keeps_nav_after =
  keeps_nav_trans [OF _ keeps_nav_console_log]
  keeps_nav_trans [OF _ keeps_nav_console_warn]
  keeps_nav_trans [OF _ keeps_nav_setTimeout]
  keeps_nav_trans [OF _ keeps_nav_gsap_call]
  keeps_nav_trans [OF _ keeps_nav_addEventListener]
  keeps_nav_trans [OF _ keeps_nav_setVH]
  keeps_nav_trans [OF _ keeps_nav_openMenu]
  keeps_nav_trans [OF _ keeps_nav_closeMenu]
  keeps_nav_trans [OF _ keeps_nav_toggle]
  keeps_nav_trans [OF _ keeps_nav_hideMobileMenu]
  keeps_nav_trans [OF _ keeps_nav_toggleAccordion]
  keeps_nav_fold'

lemma fold_gsap_call_fields [simp]:
  "elements (fold (\<lambda>x. gsap_call (g x)) xs s) = elements s"
  "nav (fold (\<lambda>x. gsap_call (g x)) xs s) = nav s"
  "rafs (fold (\<lambda>x. gsap_call (g x)) xs s) = rafs s"
  "listeners (fold (\<lambda>x. gsap_call (g x)) xs s) = listeners s"
  "documentElement (fold (\<lambda>x. gsap_call (g x)) xs s) = documentElement s"
  by (induction xs arbitrary: s) (simp_all add: gsap_call_def)

lemma initAnimations_fields [simp]:
  "elements (initAnimations s) = elements s"
  "nav (initAnimations s) = nav s"
  "rafs (initAnimations s) = rafs s"
  "listeners (initAnimations s) = listeners s"
  "documentElement (initAnimations s) = documentElement s"
  by (simp_all add: initAnimations_def Let_def gsap_call_def console_log_def)

lemma gsapCheck_fields [simp]:
  "elements (gsapCheck s) = elements s"
  "nav (gsapCheck s) = nav s"
  "rafs (gsapCheck s) = rafs s"
  "listeners (gsapCheck s) = listeners s"
  "documentElement (gsapCheck s) = documentElement s"
  by (simp_all add: gsapCheck_def gsap_call_def console_log_def console_warn_def)

lemma keeps_nav_gsapCheck [simp]: "keeps_nav s (gsapCheck s)"
  by (simp add: keeps_nav_def)

lemma keeps_nav_openFirstAccordion [simp]: "keeps_nav s (openFirstAccordion s)"
  by (simp add: openFirstAccordion_def split: option.splits)

lemma keeps_nav_run_timer [simp]: "keeps_nav s (run_timer cb s)"
  by (cases cb) simp_all

lemma keeps_nav_run_handler: "h \<noteq> RequestTick \<Longrightarrow> keeps_nav s (run_handler num h s)"
proof (cases h)
  case MenuBtnClick
  then show ?thesis by (simp add: keeps_nav_trans [OF keeps_nav_console_log keeps_nav_toggle])
next
  case MenuLinkClick
  then show ?thesis by (simp add: keeps_nav_trans [OF keeps_nav_console_log keeps_nav_closeMenu])
next
  case CloseBtnClick
  then show ?thesis by (simp add: keeps_nav_trans [OF keeps_nav_console_log keeps_nav_closeMenu])
qed simp_all

subsection \<open>The invariant through the event loop\<close>

lemma pill_mode_cong:
  assumes "\<And>c. c \<in> set pill_classes \<union> set expanded_classes \<Longrightarrow>
            (c \<in> set (classes e')) = (c \<in> set (classes e))"
  shows "pill_mode e' = pill_mode e"
proof -
  have a: "(set pill_classes \<subseteq> set (classes e')) = (set pill_classes \<subseteq> set (classes e))"
    using assms by (simp add: subset_iff)
  have b: "(set expanded_classes \<inter> set (classes e') = {}) = (set expanded_classes \<inter> set (classes e) = {})"
    using assms by (simp add: disjoint_iff)
  show ?thesis by (simp only: pill_mode_def a b)
qed

lemma same_nav_classes_pill_mode:
  "same_nav_classes els els' \<Longrightarrow> k < length els \<Longrightarrow> pill_mode (els' ! k) = pill_mode (els ! k)"
  by (rule pill_mode_cong) (simp add: same_nav_classes_def)

lemma nav_inv_keeps:
  assumes inv: "nav_inv s" and k: "keeps_nav s s'"
  shows "nav_inv s'"
proof (cases "nav s")
  case None
  with inv k show ?thesis by (simp add: nav_inv_def keeps_nav_def)
next
  case (Some n)
  from k have snc: "same_nav_classes (elements s) (elements s')" and n': "nav s' = nav s"
    and r: "rafs s' = rafs s"
    by (simp_all add: keeps_nav_def)
  from inv Some have b: "navbar n < length (elements s)" by (simp add: nav_inv_def)
  have len: "length (elements s') = length (elements s)"
    using snc by (simp add: same_nav_classes_def)
  have pm: "pill_mode (elements s' ! navbar n) = pill_mode (elements s ! navbar n)"
    using snc b by (rule same_nav_classes_pill_mode)
  from inv Some show ?thesis
    by (simp add: nav_inv_def n' r len pm)
qed

lemma nav_inv_requestTick: "nav_inv s \<Longrightarrow> nav_inv (requestTick s)"
  by (cases "nav s") (simp_all add: nav_inv_def requestTick_def)

lemma nav_inv_updateNav:
  assumes n: "nav s = Some n" and b: "navbar n < length (elements s)" and r: "rafs s = []"
    and p: "isScrolled n \<longrightarrow> pill_mode (elements s ! navbar n)"
  shows "nav_inv (updateNav s)"
proof -
  have r': "rafs (updateNav s) = []"
    using n r by (simp add: updateNav_def Let_def console_log_def)
  have len: "length (elements (updateNav s)) = length (elements s)"
    by (simp add: updateNav_elements [OF n])
  have pm: "50 < scrollY_of s \<Longrightarrow> pill_mode (elements (updateNav s) ! navbar n)"
    using b p by (simp add: updateNav_elements [OF n] nth_modify pill_mode_swap)
  show ?thesis
    using b pm by (simp add: nav_inv_def updateNav_nav [OF n] r' len)
qed

lemma nav_inv_run_handler: "nav_inv s \<Longrightarrow> nav_inv (run_handler num h s)"
  by (cases "h = RequestTick") (auto simp: nav_inv_requestTick intro: nav_inv_keeps keeps_nav_run_handler)

lemma fold_invariant:
  assumes "P s" and "\<And>x u. P u \<Longrightarrow> P (f x u)"
  shows "P (fold f xs s)"
  using assms(1) by (induction xs arbitrary: s) (simp_all add: assms(2))

lemma nav_inv_dispatchEvent: "nav_inv s \<Longrightarrow> nav_inv (dispatchEvent num t ev s)"
  unfolding dispatchEvent_def by (rule fold_invariant) (simp_all add: nav_inv_run_handler)

lemma nav_inv_field_updates [simp]:
  "nav_inv (s\<lparr>pageYOffset := y, docScrollTop := d\<rparr>) = nav_inv s"
  "nav_inv (s\<lparr>innerHeight := h\<rparr>) = nav_inv s"
  "nav_inv (s\<lparr>timers := ts\<rparr>) = nav_inv s"
  by (simp_all add: nav_inv_def split: option.splits)

lemma nav_inv_frame: "nav_inv s \<Longrightarrow> nav_inv (step num AnimationFrame s)"
proof (cases "nav s")
  case None
  assume "nav_inv s"
  with None show ?thesis by (simp add: nav_inv_def)
next
  case (Some n)
  assume inv: "nav_inv s"
  show ?thesis
  proof (cases "ticking n")
    case True
    with inv Some have r: "rafs s = [UpdateNav]" by (simp add: nav_inv_def)
    have "nav_inv (updateNav (s\<lparr>rafs := []\<rparr>))"
      using inv Some by (intro nav_inv_updateNav [where n = n]) (simp_all add: nav_inv_def)
    with r show ?thesis by simp
  next
    case False
    with inv Some have r: "rafs s = []" by (simp add: nav_inv_def)
    from inv r have "nav_inv (s\<lparr>rafs := []\<rparr>)"
      by (auto simp: nav_inv_def split: option.splits)
    with r show ?thesis by simp
  qed
qed

lemma nav_inv_step: "nav_inv s \<Longrightarrow> nav_inv (step num e s)"
proof (cases e)
  case AnimationFrame
  assume "nav_inv s"
  with AnimationFrame show ?thesis by (simp only: nav_inv_frame)
next
  case (Timeout k)
  assume "nav_inv s"
  then have "nav_inv (s\<lparr>timers := take k (timers s) @ drop (Suc k) (timers s)\<rparr>)" by simp
  then have "nav_inv (run_timer (snd (timers s ! k)) (s\<lparr>timers := take k (timers s) @ drop (Suc k) (timers s)\<rparr>))"
    by (rule nav_inv_keeps) simp
  with \<open>nav_inv s\<close> Timeout show ?thesis by simp
qed (auto simp: nav_inv_dispatchEvent intro: nav_inv_keeps)

lemma nav_inv_run: "nav_inv s \<Longrightarrow> nav_inv (run num evs s)"
  unfolding run_def by (rule fold_invariant) (simp_all add: nav_inv_step)

subsection \<open>The invariant after initialisation\<close>

lemma initNavigation_cases:
  "initNavigation s = Inr (console_warn ''Navbar not found'' s) \<and>
     (querySelector (elements s) (Id ''navbar'') = None \<or>
      querySelector (elements s) (Id ''main-header'') = None)
   \<or> (\<exists>n h. querySelector (elements s) (Id ''navbar'') = Some n \<and>
        querySelector (elements s) (Id ''main-header'') = Some h \<and>
        initNavigation s = Inr (updateNav
                   (addEventListener Window ''scroll'' RequestTick
                     ((console_log ''Navigation initialized'' s)
                        \<lparr>nav := Some \<lparr>navbar = n, isScrolled = False, ticking = False\<rparr>\<rparr>))))"
  by (cases "querySelector (elements s) (Id ''navbar'')";
      cases "querySelector (elements s) (Id ''main-header'')")
     (simp_all add: initNavigation_def Let_def deref_def and_then_def)

lemma nav_inv_initNavigation:
  assumes f: "nav s = None" "rafs s = []" and i: "initNavigation s = Inr s'"
  shows "nav_inv s'"
proof -
  consider "initNavigation s = Inr (console_warn ''Navbar not found'' s)"
    | n where "querySelector (elements s) (Id ''navbar'') = Some n"
        "initNavigation s = Inr (updateNav
                   (addEventListener Window ''scroll'' RequestTick
                     ((console_log ''Navigation initialized'' s)
                        \<lparr>nav := Some \<lparr>navbar = n, isScrolled = False, ticking = False\<rparr>\<rparr>)))"
    using initNavigation_cases [of s] by blast
  then show ?thesis
  proof cases
  case 1
  with i have "s' = console_warn ''Navbar not found'' s" by simp
  with f show ?thesis by (simp add: nav_inv_def console_warn_def)
next
  case (2 n)
  note q = 2(1) and e = 2(2)
  from q have nl: "n < length (elements s)" using querySelector_Some by blast
  have "nav_inv (updateNav
                   (addEventListener Window ''scroll'' RequestTick
                     ((console_log ''Navigation initialized'' s)
                        \<lparr>nav := Some \<lparr>navbar = n, isScrolled = False, ticking = False\<rparr>\<rparr>)))"
    by (rule nav_inv_updateNav [where n = "\<lparr>navbar = n, isScrolled = False, ticking = False\<rparr>"])
       (simp_all add: addEventListener_def console_log_def nl f)
  with e i show ?thesis by simp
qed
qed

lemma fold_addEventListener_fields [simp]:
  "elements (fold (\<lambda>x. addEventListener (g x) ev h) xs s) = elements s"
  "nav (fold (\<lambda>x. addEventListener (g x) ev h) xs s) = nav s"
  "rafs (fold (\<lambda>x. addEventListener (g x) ev h) xs s) = rafs s"
  "menu (fold (\<lambda>x. addEventListener (g x) ev h) xs s) = menu s"
  "timers (fold (\<lambda>x. addEventListener (g x) ev h) xs s) = timers s"
  "documentElement (fold (\<lambda>x. addEventListener (g x) ev h) xs s) = documentElement s"
  "body (fold (\<lambda>x. addEventListener (g x) ev h) xs s) = body s"
  "console (fold (\<lambda>x. addEventListener (g x) ev h) xs s) = console s"
  "toggleAccordion_global (fold (\<lambda>x. addEventListener (g x) ev h) xs s) = toggleAccordion_global s"
  "toggleMenu_global (fold (\<lambda>x. addEventListener (g x) ev h) xs s) = toggleMenu_global s"
  by (induction xs arbitrary: s) (simp_all add: addEventListener_def)

lemma initMobileMenu_missing:
  "querySelector (elements s) (Id ''menu-btn'') = None \<or>
   querySelector (elements s) (Id ''main-header'') = None \<or>
   querySelector (elements s) (Id ''mobile-menu'') = None \<Longrightarrow>
   initMobileMenu s = Inr (console_warn ''Menu elements not found'' s)"
  by (auto simp: initMobileMenu_def Let_def)

lemma initMobileMenu_total: "\<exists>s'. initMobileMenu s = Inr s'"
  by (cases "querySelector (elements s) (Id ''menu-btn'')";
      cases "querySelector (elements s) (Id ''main-header'')";
      cases "querySelector (elements s) (Id ''mobile-menu'')")
     (simp_all add: initMobileMenu_def Let_def deref_def and_then_def)

lemma initMobileMenu_fields:
  assumes "initMobileMenu s = Inr s'"
  shows "elements s' = elements s \<and> nav s' = nav s \<and> rafs s' = rafs s \<and> timers s' = timers s \<and>
         documentElement s' = documentElement s \<and> body s' = body s \<and>
         toggleAccordion_global s' = toggleAccordion_global s"
  using assms
  by (cases "querySelector (elements s) (Id ''menu-btn'')";
      cases "querySelector (elements s) (Id ''main-header'')";
      cases "querySelector (elements s) (Id ''mobile-menu'')")
     (auto simp: initMobileMenu_def Let_def deref_def and_then_def console_warn_def console_log_def
        addEventListener_def split: option.splits if_splits)

lemma initAll_unfold:
  assumes "initAll num s = Inr s'"
  shows "\<exists>s3 s4. initNavigation (setTimeout GsapCheck 100 (console_log ''Initializing website...'' s)) = Inr s3 \<and>
     initMobileMenu s3 = Inr s4 \<and>
     s' = addEventListener Window ''orientationchange'' SetVH
           (addEventListener Window ''resize'' SetVH (setVH num
             (setTimeout OpenFirstAccordion 300
               ((console_log ''Accordion initialized'' s4)\<lparr>toggleAccordion_global := True\<rparr>))))"
  using assms
  by (auto simp: initAll_def Let_def and_then_def initAccordion_def initViewportFix_def
      split: sum.splits)

lemma nav_inv_initAll:
  assumes f: "nav s = None" "rafs s = []" and i: "initAll num s = Inr s'"
  shows "nav_inv s'"
proof -
  from initAll_unfold [OF i] obtain s3 s4 where
    3: "initNavigation (setTimeout GsapCheck 100 (console_log ''Initializing website...'' s)) = Inr s3"
    and 4: "initMobileMenu s3 = Inr s4"
    and s': "s' = addEventListener Window ''orientationchange'' SetVH
           (addEventListener Window ''resize'' SetVH (setVH num
             (setTimeout OpenFirstAccordion 300
               ((console_log ''Accordion initialized'' s4)\<lparr>toggleAccordion_global := True\<rparr>))))"
    by blast
  have "nav_inv s3"
    using 3 by (rule nav_inv_initNavigation [rotated 2]) (simp_all add: f setTimeout_def console_log_def)
  moreover have "keeps_nav s3 s4"
    using initMobileMenu_fields [OF 4] by (simp add: keeps_nav_def)
  ultimately have "nav_inv s4" by (rule nav_inv_keeps)
  moreover have "keeps_nav s4 s'"
    unfolding s'
    by (intro keeps_nav_after) (simp add: keeps_nav_def console_log_def)
  ultimately show ?thesis by (rule nav_inv_keeps)
qed

subsection \<open>Throttling of scroll events\<close>

lemma fresh_nav: "fresh s \<Longrightarrow> nav s = None \<and> rafs s = []"
  by (simp add: fresh_def)

lemma nav_inv_rafs: "nav_inv s \<Longrightarrow> length (rafs s) \<le> 1"
  by (cases "nav s") (simp_all add: nav_inv_def)

lemma ticking_run_handler:
  assumes "nav s = Some n" "ticking n"
  shows "nav (run_handler num h s) = nav s \<and> rafs (run_handler num h s) = rafs s"
proof (cases "h = RequestTick")
  case True
  with assms show ?thesis by (simp add: requestTick_def)
next
  case False
  then have "keeps_nav s (run_handler num h s)" by (rule keeps_nav_run_handler)
  then show ?thesis by (simp add: keeps_nav_def)
qed

lemma ticking_dispatchEvent:
  assumes "nav s = Some n" "ticking n"
  shows "nav (dispatchEvent num t ev s) = nav s \<and> rafs (dispatchEvent num t ev s) = rafs s"
  unfolding dispatchEvent_def
  by (rule fold_invariant [where P = "\<lambda>u. nav u = nav s \<and> rafs u = rafs s"])
     (use assms ticking_run_handler in auto)

lemma ticking_step:
  assumes n: "nav s = Some n" "ticking n" and e: "e \<noteq> AnimationFrame"
  shows "nav (step num e s) = nav s \<and> rafs (step num e s) = rafs s"
proof (cases e)
  case (Scroll y)
  have "nav (s\<lparr>pageYOffset := y, docScrollTop := y\<rparr>) = Some n" using n by simp
  from ticking_dispatchEvent [OF this n(2)] Scroll show ?thesis by simp
next
  case AnimationFrame
  with e show ?thesis by simp
next
  case (Resize h)
  have "nav (s\<lparr>innerHeight := h\<rparr>) = Some n" using n by simp
  from ticking_dispatchEvent [OF this n(2)] Resize show ?thesis by simp
next
  case (OrientationChange h)
  have "nav (s\<lparr>innerHeight := h\<rparr>) = Some n" using n by simp
  from ticking_dispatchEvent [OF this n(2)] OrientationChange show ?thesis by simp
next
  case (Timeout k)
  have "keeps_nav (s\<lparr>timers := take k (timers s) @ drop (Suc k) (timers s)\<rparr>)
          (run_timer (snd (timers s ! k)) (s\<lparr>timers := take k (timers s) @ drop (Suc k) (timers s)\<rparr>))"
    by simp
  with Timeout show ?thesis by (simp add: keeps_nav_def)
next
  case (Click i)
  from ticking_dispatchEvent [OF n] Click show ?thesis by simp
next
  case CallToggleMenu
  have "keeps_nav s (toggle s)" by simp
  with CallToggleMenu show ?thesis by (simp add: keeps_nav_def)
next
  case (CallToggleAccordion el)
  then show ?thesis by (simp add: toggleAccordion_fields)
qed

lemma ticking_frame:
  assumes inv: "nav_inv s" and n: "nav s = Some n" "ticking n"
  shows "\<exists>n'. nav (step num AnimationFrame s) = Some n' \<and> \<not> ticking n' \<and>
           rafs (step num AnimationFrame s) = []"
proof -
  from inv n have r: "rafs s = [UpdateNav]" by (simp add: nav_inv_def)
  have n0: "nav (s\<lparr>rafs := []\<rparr>) = Some n" using n by simp
  have "rafs (updateNav (s\<lparr>rafs := []\<rparr>)) = []"
    using n by (simp add: updateNav_def Let_def console_log_def)
  then show ?thesis
    using r by (simp add: updateNav_nav [OF n0])
qed

lemma initAll_total: "\<exists>s'. initAll num s = Inr s'"
proof -
  obtain s3 where 3: "initNavigation (setTimeout GsapCheck 100 (console_log ''Initializing website...'' s)) = Inr s3"
    using initNavigation_cases by blast
  obtain s4 where 4: "initMobileMenu s3 = Inr s4" using initMobileMenu_total by blast
  show ?thesis
    by (simp add: initAll_def Let_def and_then_def 3 4 initAccordion_def initViewportFix_def)
qed

lemma initAll_projr: "initAll num s = Inr (projr (initAll num s))"
  using initAll_total [of num s] by auto

text \<open>
  Claim C7. Start from a page on which the script has not run yet and let \<open>initAll\<close>
  run; then let any sequence of events happen (scrolls, frames, resizes, timers, clicks,
  calls of the published functions). At every point at most one \<open>updateNav\<close> callback
  is pending; while the \<open>ticking\<close> flag is set a scroll event leaves the pending
  callbacks as they are; no event other than an animation frame clears the flag; and
  the frame, which runs the callback, clears it and leaves nothing pending.
\<close>

theorem scroll_throttle:
  assumes f: "fresh s0" and i: "initAll num s0 = Inr s1"
  shows "length (rafs (run num evs s1)) \<le> 1 \<and>
    (\<forall>n y. nav (run num evs s1) = Some n \<and> ticking n \<longrightarrow>
        rafs (step num (Scroll y) (run num evs s1)) = rafs (run num evs s1)) \<and>
    (\<forall>n e. nav (run num evs s1) = Some n \<and> ticking n \<and> e \<noteq> AnimationFrame \<longrightarrow>
        nav (step num e (run num evs s1)) = Some n) \<and>
    (\<forall>n. nav (run num evs s1) = Some n \<and> ticking n \<longrightarrow>
        (\<exists>n'. nav (step num AnimationFrame (run num evs s1)) = Some n' \<and> \<not> ticking n' \<and>
           rafs (step num AnimationFrame (run num evs s1)) = []))"
proof -
  have "nav_inv s1"
    using fresh_nav [OF f] i by (auto intro: nav_inv_initAll)
  then have inv: "nav_inv (run num evs s1)" by (rule nav_inv_run)
  show ?thesis
  proof (intro conjI allI impI)
    show "length (rafs (run num evs s1)) \<le> 1" using inv by (rule nav_inv_rafs)
  next
    fix n y assume "nav (run num evs s1) = Some n \<and> ticking n"
    then show "rafs (step num (Scroll y) (run num evs s1)) = rafs (run num evs s1)"
      using ticking_step [of "run num evs s1" n "Scroll y" num] by simp
  next
    fix n e assume "nav (run num evs s1) = Some n \<and> ticking n \<and> e \<noteq> AnimationFrame"
    then show "nav (step num e (run num evs s1)) = Some n"
      using ticking_step [of "run num evs s1" n e num] by simp
  next
    fix n assume "nav (run num evs s1) = Some n \<and> ticking n"
    then show "\<exists>n'. nav (step num AnimationFrame (run num evs s1)) = Some n' \<and> \<not> ticking n' \<and>
           rafs (step num AnimationFrame (run num evs s1)) = []"
      using ticking_frame [OF inv] by blast
  qed
qed

text \<open>
  On the example page two scroll events in a row leave one callback pending, a third
  adds none, and the next frame runs it and clears the flag.
\<close>

theorem scroll_throttle_witness:
  "fresh styled_nav_page \<and>
   rafs (run whole_vh [Scroll 120, Scroll 130] (projr (initAll whole_vh styled_nav_page))) = [UpdateNav] \<and>
   rafs (step whole_vh (Scroll 140) (run whole_vh [Scroll 120, Scroll 130] (projr (initAll whole_vh styled_nav_page)))) =
     [UpdateNav] \<and>
   (\<exists>n'. nav (step whole_vh AnimationFrame
              (run whole_vh [Scroll 120, Scroll 130] (projr (initAll whole_vh styled_nav_page)))) = Some n' \<and>
         \<not> ticking n' \<and>
         rafs (step whole_vh AnimationFrame
              (run whole_vh [Scroll 120, Scroll 130] (projr (initAll whole_vh styled_nav_page)))) = [])"
proof -
  have f: "fresh styled_nav_page" by code_simp
  have n: "nav (run whole_vh [Scroll 120, Scroll 130] (projr (initAll whole_vh styled_nav_page))) =
      Some \<lparr>navbar = 2, isScrolled = False, ticking = True\<rparr>"
    by code_simp
  have r: "rafs (run whole_vh [Scroll 120, Scroll 130] (projr (initAll whole_vh styled_nav_page))) = [UpdateNav]"
    by code_simp
  show ?thesis
    using scroll_throttle [OF f initAll_projr, of whole_vh "[Scroll 120, Scroll 130]"] f n r
    by (simp del: step.simps)
qed

subsection \<open>Classes of the navigation bar\<close>

lemma nav_inv_navbar: "nav_inv s \<Longrightarrow> nav s = Some n \<Longrightarrow> navbar n < length (elements s)"
  by (simp add: nav_inv_def)

lemma nav_inv_pill: "nav_inv s \<Longrightarrow> nav s = Some n \<Longrightarrow> isScrolled n \<Longrightarrow> pill_mode (elements s ! navbar n)"
  by (simp add: nav_inv_def)

lemma updateNav_twice:
  assumes n: "nav s = Some n"
    and side: "(50 < scrollY_of s) = (50 < (if y \<noteq> 0 then y else d))"
  shows "elements (updateNav ((updateNav s)\<lparr>pageYOffset := y, docScrollTop := d\<rparr>)) = elements (updateNav s)"
proof -
  let ?t = "(updateNav s)\<lparr>pageYOffset := y, docScrollTop := d\<rparr>"
  have nt: "nav ?t = Some (n\<lparr>isScrolled := (50 < scrollY_of s), ticking := False\<rparr>)"
    by (simp add: updateNav_nav [OF n])
  have sy: "scrollY_of ?t = (if y \<noteq> 0 then y else d)" by (simp add: scrollY_of_def)
  show ?thesis
    using side by (auto simp: updateNav_elements [OF nt] sy)
qed

lemma expanded_mode_cong:
  assumes "\<And>c. c \<in> set pill_classes \<union> set expanded_classes \<Longrightarrow>
            (c \<in> set (classes e')) = (c \<in> set (classes e))"
  shows "expanded_mode e' = expanded_mode e"
proof -
  have a: "(set expanded_classes \<subseteq> set (classes e')) = (set expanded_classes \<subseteq> set (classes e))"
    using assms by (simp add: subset_iff)
  have b: "(set pill_classes \<inter> set (classes e') = {}) = (set pill_classes \<inter> set (classes e) = {})"
    using assms by (simp add: disjoint_iff)
  show ?thesis by (simp only: expanded_mode_def a b)
qed

lemma same_nav_classes_expanded_mode:
  "same_nav_classes els els' \<Longrightarrow> k < length els \<Longrightarrow> expanded_mode (els' ! k) = expanded_mode (els ! k)"
  by (rule expanded_mode_cong) (simp add: same_nav_classes_def)

lemma nav_inv_expanded_keeps:
  assumes inv: "nav_inv_expanded s" and k: "keeps_nav s s'"
  shows "nav_inv_expanded s'"
proof (cases "nav s")
  case None
  with inv k show ?thesis by (simp add: nav_inv_expanded_def keeps_nav_def)
next
  case (Some n)
  from k have snc: "same_nav_classes (elements s) (elements s')" and n': "nav s' = nav s"
    by (simp_all add: keeps_nav_def)
  from inv Some have b: "navbar n < length (elements s)" by (simp add: nav_inv_expanded_def)
  have len: "length (elements s') = length (elements s)"
    using snc by (simp add: same_nav_classes_def)
  have pm: "expanded_mode (elements s' ! navbar n) = expanded_mode (elements s ! navbar n)"
    using snc b by (rule same_nav_classes_expanded_mode)
  from inv Some show ?thesis
    by (simp add: nav_inv_expanded_def n' len pm)
qed

lemma nav_inv_expanded_requestTick: "nav_inv_expanded s \<Longrightarrow> nav_inv_expanded (requestTick s)"
  by (cases "nav s") (simp_all add: nav_inv_expanded_def requestTick_def)

lemma nav_inv_expanded_updateNav:
  assumes inv: "nav_inv_expanded s"
  shows "nav_inv_expanded (updateNav s)"
proof (cases "nav s")
  case None
  then show ?thesis using inv by (simp add: updateNav_def)
next
  case (Some n)
  from inv Some have b: "navbar n < length (elements s)"
    and e: "\<not> isScrolled n \<longrightarrow> expanded_mode (elements s ! navbar n)"
    by (simp_all add: nav_inv_expanded_def)
  have len: "length (elements (updateNav s)) = length (elements s)"
    by (simp add: updateNav_elements [OF Some])
  have em: "\<not> 50 < scrollY_of s \<Longrightarrow> expanded_mode (elements (updateNav s) ! navbar n)"
    using b e by (simp add: updateNav_elements [OF Some] nth_modify expanded_mode_swap)
  show ?thesis
    using b em by (simp add: nav_inv_expanded_def updateNav_nav [OF Some] len)
qed

lemma nav_inv_expanded_run_handler: "nav_inv_expanded s \<Longrightarrow> nav_inv_expanded (run_handler num h s)"
  by (cases "h = RequestTick")
     (auto simp: nav_inv_expanded_requestTick intro: nav_inv_expanded_keeps keeps_nav_run_handler)

lemma nav_inv_expanded_dispatchEvent: "nav_inv_expanded s \<Longrightarrow> nav_inv_expanded (dispatchEvent num t ev s)"
  unfolding dispatchEvent_def by (rule fold_invariant) (simp_all add: nav_inv_expanded_run_handler)

lemma nav_inv_expanded_field_updates [simp]:
  "nav_inv_expanded (s\<lparr>pageYOffset := y, docScrollTop := d\<rparr>) = nav_inv_expanded s"
  "nav_inv_expanded (s\<lparr>innerHeight := h\<rparr>) = nav_inv_expanded s"
  "nav_inv_expanded (s\<lparr>timers := ts\<rparr>) = nav_inv_expanded s"
  "nav_inv_expanded (s\<lparr>rafs := rs\<rparr>) = nav_inv_expanded s"
  by (simp_all add: nav_inv_expanded_def split: option.splits)

lemma nav_inv_expanded_step: "nav_inv_expanded s \<Longrightarrow> nav_inv_expanded (step num e s)"
proof (cases e)
  case AnimationFrame
  assume inv: "nav_inv_expanded s"
  have "nav_inv_expanded (fold run_raf (rafs s) (s\<lparr>rafs := []\<rparr>))"
  proof (rule fold_invariant)
    show "nav_inv_expanded (s\<lparr>rafs := []\<rparr>)" using inv by simp
  next
    fix x u assume "nav_inv_expanded u"
    then show "nav_inv_expanded (run_raf x u)" by (cases x) (simp add: nav_inv_expanded_updateNav)
  qed
  with AnimationFrame show ?thesis by simp
next
  case (Timeout k)
  assume inv: "nav_inv_expanded s"
  then have "nav_inv_expanded (s\<lparr>timers := take k (timers s) @ drop (Suc k) (timers s)\<rparr>)" by simp
  then have "nav_inv_expanded (run_timer (snd (timers s ! k)) (s\<lparr>timers := take k (timers s) @ drop (Suc k) (timers s)\<rparr>))"
    by (rule nav_inv_expanded_keeps) simp
  with inv Timeout show ?thesis by simp
qed (auto simp: nav_inv_expanded_dispatchEvent intro: nav_inv_expanded_keeps)

lemma nav_inv_expanded_run: "nav_inv_expanded s \<Longrightarrow> nav_inv_expanded (run num evs s)"
  unfolding run_def by (rule fold_invariant) (simp_all add: nav_inv_expanded_step)

lemma nav_inv_expanded_initAll:
  assumes f: "nav s = None"
    and i: "initAll num s = Inr s'"
    and q: "querySelector (elements s) (Id ''navbar'') = Some k"
    and e: "expanded_mode (elements s ! k)"
  shows "nav_inv_expanded s'"
proof -
  let ?s2 = "setTimeout GsapCheck 100 (console_log ''Initializing website...'' s)"
  from initAll_unfold [OF i] obtain s3 s4 where
    3: "initNavigation ?s2 = Inr s3"
    and 4: "initMobileMenu s3 = Inr s4"
    and s': "s' = addEventListener Window ''orientationchange'' SetVH
           (addEventListener Window ''resize'' SetVH (setVH num
             (setTimeout OpenFirstAccordion 300
               ((console_log ''Accordion initialized'' s4)\<lparr>toggleAccordion_global := True\<rparr>))))"
    by blast
  have e2: "elements ?s2 = elements s" "nav ?s2 = None"
    using f by (simp_all add: setTimeout_def console_log_def)
  have kl: "k < length (elements s)" using querySelector_Some [OF q] by simp
  consider "initNavigation ?s2 = Inr (console_warn ''Navbar not found'' ?s2)"
    | n where "querySelector (elements ?s2) (Id ''navbar'') = Some n"
        "initNavigation ?s2 = Inr (updateNav
                   (addEventListener Window ''scroll'' RequestTick
                     ((console_log ''Navigation initialized'' ?s2)
                        \<lparr>nav := Some \<lparr>navbar = n, isScrolled = False, ticking = False\<rparr>\<rparr>)))"
    using initNavigation_cases [of ?s2] by blast
  then have "nav_inv_expanded s3"
  proof cases
    case 1
    with 3 have "s3 = console_warn ''Navbar not found'' ?s2" by simp
    then show ?thesis using e2 by (simp add: nav_inv_expanded_def console_warn_def)
  next
    case (2 n)
    from 2(1) q have nk: "n = k" by (simp add: e2)
    have "nav_inv_expanded (addEventListener Window ''scroll'' RequestTick
                     ((console_log ''Navigation initialized'' ?s2)
                        \<lparr>nav := Some \<lparr>navbar = n, isScrolled = False, ticking = False\<rparr>\<rparr>))"
      using kl e by (simp add: nav_inv_expanded_def addEventListener_def console_log_def setTimeout_def nk)
    then have "nav_inv_expanded (updateNav (addEventListener Window ''scroll'' RequestTick
                     ((console_log ''Navigation initialized'' ?s2)
                        \<lparr>nav := Some \<lparr>navbar = n, isScrolled = False, ticking = False\<rparr>\<rparr>)))"
      by (rule nav_inv_expanded_updateNav)
    with 2(2) 3 show ?thesis by simp
  qed
  moreover have "keeps_nav s3 s4"
    using initMobileMenu_fields [OF 4] by (simp add: keeps_nav_def)
  ultimately have "nav_inv_expanded s4" by (rule nav_inv_expanded_keeps)
  moreover have "keeps_nav s4 s'"
    unfolding s'
    by (intro keeps_nav_after) (simp add: keeps_nav_def console_log_def)
  ultimately show ?thesis by (rule nav_inv_expanded_keeps)
qed

lemma updateNav_expanded_from_markup:
  assumes f: "fresh s0" and i: "initAll num s0 = Inr s1"
    and n: "nav (run num evs s1) = Some n"
    and q: "querySelector (elements s0) (Id ''navbar'') = Some k"
    and e: "expanded_mode (elements s0 ! k)"
    and y: "scrollY_of (run num evs s1) \<le> 50"
  shows "expanded_mode (elements (updateNav (run num evs s1)) ! navbar n)"
proof -
  have "nav_inv_expanded s1"
    using fresh_nav [OF f] i q e by (auto intro: nav_inv_expanded_initAll)
  then have "nav_inv_expanded (run num evs s1)" by (rule nav_inv_expanded_run)
  then have "nav_inv_expanded (updateNav (run num evs s1))" by (rule nav_inv_expanded_updateNav)
  then show ?thesis
    using y by (simp add: nav_inv_expanded_def updateNav_nav [OF n])
qed

text \<open>
  Claim C2, as the code has it. On every page reached from \<open>initAll\<close> by any events,
  with the navigation closure built: when the offset is above 50 the navbar carries
  the pill classes and none of the expanded ones after \<open>updateNav\<close>; when the offset
  is at most 50 and the \<open>isScrolled\<close> flag is set, it carries the expanded classes and
  none of the pill ones afterwards; when the offset is at most 50 and the flag is
  clear, \<open>updateNav\<close> changes no element, so the bar keeps the classes it has; where
  the markup of the page had the navbar with the expanded classes and none of the pill
  ones, it has them after every update at an offset of at most 50; and a second update
  at any offset on the same side of the threshold changes no element.
\<close>

theorem updateNav_classes:
  assumes f: "fresh s0" and i: "initAll num s0 = Inr s1"
    and n: "nav (run num evs s1) = Some n"
  shows
   "(50 < scrollY_of (run num evs s1) \<longrightarrow>
       pill_mode (elements (updateNav (run num evs s1)) ! navbar n)) \<and>
    (scrollY_of (run num evs s1) \<le> 50 \<and> isScrolled n \<longrightarrow>
       expanded_mode (elements (updateNav (run num evs s1)) ! navbar n)) \<and>
    (scrollY_of (run num evs s1) \<le> 50 \<and> \<not> isScrolled n \<longrightarrow>
       elements (updateNav (run num evs s1)) = elements (run num evs s1)) \<and>
    (\<forall>k. querySelector (elements s0) (Id ''navbar'') = Some k \<and> expanded_mode (elements s0 ! k) \<and>
         scrollY_of (run num evs s1) \<le> 50 \<longrightarrow>
       expanded_mode (elements (updateNav (run num evs s1)) ! navbar n)) \<and>
    (\<forall>(y::nat) (d::nat). (50 < scrollY_of (run num evs s1)) = (50 < (if y \<noteq> 0 then y else d)) \<longrightarrow>
       elements (updateNav ((updateNav (run num evs s1))\<lparr>pageYOffset := y, docScrollTop := d\<rparr>)) =
       elements (updateNav (run num evs s1)))"
proof -
  have "nav_inv s1"
    using fresh_nav [OF f] i by (auto intro: nav_inv_initAll)
  then have inv: "nav_inv (run num evs s1)" by (rule nav_inv_run)
  note b = nav_inv_navbar [OF inv n]
  show ?thesis
  proof (intro conjI allI impI)
    assume "50 < scrollY_of (run num evs s1)"
    then show "pill_mode (elements (updateNav (run num evs s1)) ! navbar n)"
      using b nav_inv_pill [OF inv n]
      by (simp add: updateNav_elements [OF n] nth_modify pill_mode_swap)
  next
    assume "scrollY_of (run num evs s1) \<le> 50 \<and> isScrolled n"
    then show "expanded_mode (elements (updateNav (run num evs s1)) ! navbar n)"
      using b by (simp add: updateNav_elements [OF n] nth_modify expanded_mode_swap)
  next
    assume "scrollY_of (run num evs s1) \<le> 50 \<and> \<not> isScrolled n"
    then show "elements (updateNav (run num evs s1)) = elements (run num evs s1)"
      by (simp add: updateNav_elements [OF n])
  next
    fix k
    assume "querySelector (elements s0) (Id ''navbar'') = Some k \<and> expanded_mode (elements s0 ! k) \<and>
         scrollY_of (run num evs s1) \<le> 50"
    then show "expanded_mode (elements (updateNav (run num evs s1)) ! navbar n)"
      using updateNav_expanded_from_markup [OF f i n] by blast
  next
    fix y d :: nat
    assume "(50 < scrollY_of (run num evs s1)) = (50 < (if y \<noteq> 0 then y else d))"
    then show "elements (updateNav ((updateNav (run num evs s1))\<lparr>pageYOffset := y, docScrollTop := d\<rparr>)) =
       elements (updateNav (run num evs s1))"
      by (rule updateNav_twice [OF n])
  qed
qed

text \<open>
  On the example page, whose markup carries the expanded classes: after a scroll to 120
  the update puts the bar in pill mode, and after a later scroll back to 10 it puts it
  in expanded mode again.
\<close>

theorem updateNav_classes_witness:
  "fresh styled_nav_page \<and>
   50 < scrollY_of (run whole_vh [Scroll 120] (projr (initAll whole_vh styled_nav_page))) \<and>
   pill_mode (elements (updateNav (run whole_vh [Scroll 120] (projr (initAll whole_vh styled_nav_page)))) ! 2) \<and>
   scrollY_of (run whole_vh [Scroll 120, AnimationFrame, Scroll 10] (projr (initAll whole_vh styled_nav_page))) \<le> 50 \<and>
   expanded_mode (elements (updateNav
     (run whole_vh [Scroll 120, AnimationFrame, Scroll 10] (projr (initAll whole_vh styled_nav_page)))) ! 2) \<and>
   expanded_mode (elements styled_nav_page ! 2) \<and>
   expanded_mode (elements (updateNav (run whole_vh [Scroll 20] (projr (initAll whole_vh styled_nav_page)))) ! 2)"
proof -
  have f: "fresh styled_nav_page" by code_simp
  have n1: "nav (run whole_vh [Scroll 120] (projr (initAll whole_vh styled_nav_page))) =
      Some \<lparr>navbar = 2, isScrolled = False, ticking = True\<rparr>"
    by code_simp
  have y1: "50 < scrollY_of (run whole_vh [Scroll 120] (projr (initAll whole_vh styled_nav_page)))"
    by code_simp
  have n2: "nav (run whole_vh [Scroll 120, AnimationFrame, Scroll 10] (projr (initAll whole_vh styled_nav_page))) =
      Some \<lparr>navbar = 2, isScrolled = True, ticking = True\<rparr>"
    by code_simp
  have y2: "scrollY_of (run whole_vh [Scroll 120, AnimationFrame, Scroll 10] (projr (initAll whole_vh styled_nav_page))) \<le> 50"
    by code_simp
  have n3: "nav (run whole_vh [Scroll 20] (projr (initAll whole_vh styled_nav_page))) =
      Some \<lparr>navbar = 2, isScrolled = False, ticking = True\<rparr>"
    by code_simp
  have y3: "scrollY_of (run whole_vh [Scroll 20] (projr (initAll whole_vh styled_nav_page))) \<le> 50"
    by code_simp
  have q: "querySelector (elements styled_nav_page) (Id ''navbar'') = Some 2" by code_simp
  have e: "expanded_mode (elements styled_nav_page ! 2)" by code_simp
  have p1: "pill_mode (elements (updateNav (run whole_vh [Scroll 120] (projr (initAll whole_vh styled_nav_page)))) ! 2)"
    using updateNav_classes [OF f initAll_projr n1] y1 by simp
  have p2: "expanded_mode (elements (updateNav
     (run whole_vh [Scroll 120, AnimationFrame, Scroll 10] (projr (initAll whole_vh styled_nav_page)))) ! 2)"
    using updateNav_classes [OF f initAll_projr n2] y2 by simp
  have p3: "expanded_mode (elements (updateNav (run whole_vh [Scroll 20] (projr (initAll whole_vh styled_nav_page)))) ! 2)"
  proof -
    have "expanded_mode (elements (updateNav (run whole_vh [Scroll 20] (projr (initAll whole_vh styled_nav_page)))) !
            navbar \<lparr>navbar = 2, isScrolled = False, ticking = True\<rparr>)"
      using updateNav_classes [OF f initAll_projr n3] q e y3 by blast
    then show ?thesis by simp
  qed
  show ?thesis
    using f y1 y2 e p1 p2 p3 by simp
qed

text \<open>
  Claim C2 as stated fails for offsets of at most 50: the expanded classes are only
  ever added when the bar leaves pill mode. On a page whose navbar has no class in its
  markup, the update at offset 0 leaves the class list empty.
\<close>

theorem updateNav_offset_le_50_counterexample:
  "fresh plain_nav_page \<and> scrollY_of (projr (initAll string_of_nat plain_nav_page)) \<le> 50 \<and>
   nav (projr (initAll string_of_nat plain_nav_page)) = Some \<lparr>navbar = 2, isScrolled = False, ticking = False\<rparr> \<and>
   classes (elements (updateNav (projr (initAll string_of_nat plain_nav_page))) ! 2) = [] \<and>
   \<not> expanded_mode (elements (updateNav (projr (initAll string_of_nat plain_nav_page))) ! 2)"
  by code_simp

section \<open>Mobile menu, viewport height and initialisation\<close>

subsection \<open>Opening and closing the menu\<close>

lemma openMenu_elements:
  assumes "menu s = Some m"
  shows "elements (openMenu s) =
     modify (body s) (style_set ''width'' ''100%'')
      (modify (body s) (style_set ''right'' ''0'')
        (modify (body s) (style_set ''left'' ''0'')
          (modify (body s) (style_set ''top'' (''-'' @ string_of_nat (pageYOffset s) @ ''px''))
            (modify (body s) (style_set ''position'' ''fixed'')
              (modify (mainHeader m) (style_set ''pointer-events'' ''none'')
                (modify (mainHeader m) (style_set ''opacity'' ''0'')
                  (modify (mobileMenu m) (classList_add [''mobile-menu-open''])
                    (modify (mobileMenu m) (classList_remove [''opacity-0'', ''pointer-events-none''])
                      (modify (mobileMenu m) (style_set ''display'' ''flex'') (elements s))))))))))"
  using assms by (simp add: openMenu_def Let_def console_log_def)

lemma closeMenu_elements:
  assumes "menu s = Some m"
  shows "elements (closeMenu s) =
     modify (body s) (style_set ''width'' '''')
      (modify (body s) (style_set ''right'' '''')
        (modify (body s) (style_set ''left'' '''')
          (modify (body s) (style_set ''top'' '''')
            (modify (body s) (style_set ''position'' '''')
              (modify (mainHeader m) (style_set ''pointer-events'' '''')
                (modify (mainHeader m) (style_set ''opacity'' ''1'')
                  (modify (mobileMenu m) (classList_remove [''mobile-menu-open''])
                    (modify (mobileMenu m) (classList_add [''opacity-0'', ''pointer-events-none''])
                      (elements s)))))))))"
  using assms by (simp add: closeMenu_def Let_def console_log_def setTimeout_def window_scrollTo_def)

lemma openMenu_fields:
  assumes "menu s = Some m"
  shows "menu (openMenu s) = Some (m\<lparr>isOpen := True, scrollPos := pageYOffset s\<rparr>)"
    "body (openMenu s) = body s" "timers (openMenu s) = timers s"
    "pageYOffset (openMenu s) = pageYOffset s"
  using assms by (simp_all add: openMenu_def Let_def console_log_def)

lemma closeMenu_fields:
  assumes "menu s = Some m"
  shows "menu (closeMenu s) = Some (m\<lparr>isOpen := False\<rparr>)"
    "body (closeMenu s) = body s" "timers (closeMenu s) = timers s @ [(300, HideMobileMenu)]"
    "pageYOffset (closeMenu s) = scrollPos m"
  using assms by (simp_all add: closeMenu_def Let_def console_log_def setTimeout_def window_scrollTo_def)





subsection \<open>Reopening before the hide timer fires\<close>

lemma hideMobileMenu_fields:
  assumes "menu s = Some m"
  shows "elements (hideMobileMenu s) = modify (mobileMenu m) (style_set ''display'' ''none'') (elements s)"
    "menu (hideMobileMenu s) = menu s"
  using assms by (simp_all add: hideMobileMenu_def)

lemma fire_last_timer:
  assumes "timers s = ts @ [(d, cb)]"
  shows "step num (Timeout (length ts)) s = run_timer cb (s\<lparr>timers := ts\<rparr>)"
  using assms by simp

text \<open>
  Claim C8. Close the menu and open it again while the timer that \<open>closeMenu\<close> set is
  still pending: \<open>openMenu\<close> does not cancel it, so it is the last pending timer. When
  it fires, the menu is still open by its flag, the panel has its open class and
  neither of its closed classes, the header is hidden, the body is fixed, and the
  panel's display is \<^verbatim>\<open>none\<close>.
\<close>

theorem reopen_before_hide_timer:
  assumes m: "menu s = Some m"
    and bm: "mobileMenu m < length (elements s)"
    and bh: "mainHeader m < length (elements s)"
    and bb: "body s < length (elements s)"
  shows
    "timers (openMenu (closeMenu s)) = timers s @ [(300, HideMobileMenu)] \<and>
     (\<exists>m'. menu (step num (Timeout (length (timers s))) (openMenu (closeMenu s))) = Some m' \<and> isOpen m') \<and>
     ''mobile-menu-open'' \<in> set (classes (elements (step num (Timeout (length (timers s))) (openMenu (closeMenu s))) ! mobileMenu m)) \<and>
     ''opacity-0'' \<notin> set (classes (elements (step num (Timeout (length (timers s))) (openMenu (closeMenu s))) ! mobileMenu m)) \<and>
     ''pointer-events-none'' \<notin> set (classes (elements (step num (Timeout (length (timers s))) (openMenu (closeMenu s))) ! mobileMenu m)) \<and>
     style (elements (step num (Timeout (length (timers s))) (openMenu (closeMenu s))) ! mainHeader m) ''opacity'' = ''0'' \<and>
     style (elements (step num (Timeout (length (timers s))) (openMenu (closeMenu s))) ! mainHeader m) ''pointer-events'' = ''none'' \<and>
     style (elements (step num (Timeout (length (timers s))) (openMenu (closeMenu s))) ! body s) ''position'' = ''fixed'' \<and>
     style (elements (step num (Timeout (length (timers s))) (openMenu (closeMenu s))) ! body s) ''top'' =
       ''-'' @ string_of_nat (scrollPos m) @ ''px'' \<and>
     style (elements (step num (Timeout (length (timers s))) (openMenu (closeMenu s))) ! body s) ''width'' = ''100%'' \<and>
     style (elements (step num (Timeout (length (timers s))) (openMenu (closeMenu s))) ! mobileMenu m) ''display'' = ''none''"
proof -
  let ?c = "closeMenu s"
  let ?o = "openMenu ?c"
  have mc: "menu ?c = Some (m\<lparr>isOpen := False\<rparr>)" by (simp add: closeMenu_fields [OF m])
  have mo: "menu ?o = Some (m\<lparr>isOpen := True, scrollPos := pageYOffset ?c\<rparr>)"
    by (simp add: openMenu_fields [OF mc])
  have t: "timers ?o = timers s @ [(300, HideMobileMenu)]"
    by (simp add: openMenu_fields [OF mc] closeMenu_fields [OF m])
  have lc: "length (elements ?c) = length (elements s)"
    by (simp add: closeMenu_elements [OF m])
  have bc: "body ?c = body s" by (simp add: closeMenu_fields [OF m])
  define fin where "fin = step num (Timeout (length (timers s))) ?o"
  have f: "fin = hideMobileMenu (?o\<lparr>timers := timers s\<rparr>)"
    unfolding fin_def using fire_last_timer [OF t] by simp
  have mf: "menu (?o\<lparr>timers := timers s\<rparr>) = Some (m\<lparr>isOpen := True, scrollPos := pageYOffset ?c\<rparr>)"
    using mo by simp
  have ef: "elements fin = modify (mobileMenu m) (style_set ''display'' ''none'') (elements ?o)"
    unfolding f by (simp add: hideMobileMenu_fields [OF mf])
  have menu_f: "menu fin = Some (m\<lparr>isOpen := True, scrollPos := pageYOffset ?c\<rparr>)"
    unfolding f by (simp add: hideMobileMenu_fields [OF mf] mo)
  have cls: "set (classes (elements fin ! mobileMenu m)) =
      (set (classes (elements ?c ! mobileMenu m)) - {''opacity-0'', ''pointer-events-none''}) \<union> {''mobile-menu-open''}"
    using bm by (simp add: ef openMenu_elements [OF mc] nth_modify lc bc)
  have st1: "style (elements fin ! mainHeader m) ''opacity'' = ''0''"
    and st2: "style (elements fin ! mainHeader m) ''pointer-events'' = ''none''"
    using bh by (simp_all add: ef openMenu_elements [OF mc] nth_modify lc bc)
  have st3: "style (elements fin ! body s) ''position'' = ''fixed''"
    using bb by (simp add: ef openMenu_elements [OF mc] nth_modify lc bc)
  have yc: "pageYOffset ?c = scrollPos m" by (simp add: closeMenu_fields [OF m])
  have st5: "style (elements fin ! body s) ''top'' = ''-'' @ string_of_nat (scrollPos m) @ ''px''"
    and st6: "style (elements fin ! body s) ''width'' = ''100%''"
    using bb by (simp_all add: ef openMenu_elements [OF mc] nth_modify lc bc yc)
  have st4: "style (elements fin ! mobileMenu m) ''display'' = ''none''"
    using bm by (simp add: ef openMenu_elements [OF mc] nth_modify lc bc)
  have "timers ?o = timers s @ [(300, HideMobileMenu)] \<and>
     (\<exists>m'. menu fin = Some m' \<and> isOpen m') \<and>
     ''mobile-menu-open'' \<in> set (classes (elements fin ! mobileMenu m)) \<and>
     ''opacity-0'' \<notin> set (classes (elements fin ! mobileMenu m)) \<and>
     ''pointer-events-none'' \<notin> set (classes (elements fin ! mobileMenu m)) \<and>
     style (elements fin ! mainHeader m) ''opacity'' = ''0'' \<and>
     style (elements fin ! mainHeader m) ''pointer-events'' = ''none'' \<and>
     style (elements fin ! body s) ''position'' = ''fixed'' \<and>
     style (elements fin ! body s) ''top'' = ''-'' @ string_of_nat (scrollPos m) @ ''px'' \<and>
     style (elements fin ! body s) ''width'' = ''100%'' \<and>
     style (elements fin ! mobileMenu m) ''display'' = ''none''"
    using t menu_f cls st1 st2 st3 st4 st5 st6 by simp
  then show ?thesis unfolding fin_def .
qed

text \<open>
  On the example page no timer is pending at first, so the hide timer is the first
  one pending after closing and reopening; when it fires the menu is open and locked,
  and its panel is not displayed.
\<close>

theorem reopen_before_hide_timer_witness:
  "menu menu_ready = Some \<lparr>menuBtn = 3, mainHeader = 2, mobileMenu = 4, isOpen = False, scrollPos = 0\<rparr> \<and>
   timers menu_ready = [] \<and>
   timers (openMenu (closeMenu menu_ready)) = [(300, HideMobileMenu)] \<and>
   (\<exists>m'. menu (step whole_vh (Timeout 0) (openMenu (closeMenu menu_ready))) = Some m' \<and> isOpen m') \<and>
   style (elements (step whole_vh (Timeout 0) (openMenu (closeMenu menu_ready))) ! 1) ''position'' = ''fixed'' \<and>
   style (elements (step whole_vh (Timeout 0) (openMenu (closeMenu menu_ready))) ! 4) ''display'' = ''none''"
proof -
  have m: "menu menu_ready = Some \<lparr>menuBtn = 3, mainHeader = 2, mobileMenu = 4, isOpen = False, scrollPos = 0\<rparr>"
    by code_simp
  have b: "mobileMenu \<lparr>menuBtn = 3, mainHeader = 2, mobileMenu = 4, isOpen = False, scrollPos = 0\<rparr> < length (elements menu_ready)"
    "mainHeader \<lparr>menuBtn = 3, mainHeader = 2, mobileMenu = 4, isOpen = False, scrollPos = 0\<rparr> < length (elements menu_ready)"
    "body menu_ready < length (elements menu_ready)"
    by code_simp+
  have t: "timers menu_ready = []" by code_simp
  have bd: "body menu_ready = 1" by code_simp
  show ?thesis
    using reopen_before_hide_timer [OF m b, of whole_vh] m t bd by (simp del: step.simps)
qed

subsection \<open>Listeners and the viewport property\<close>

lemma keeps_wiring_refl [simp]: "keeps_wiring s s"
  by (simp add: keeps_wiring_def)

lemma keeps_wiring_trans: "keeps_wiring s t \<Longrightarrow> keeps_wiring t u \<Longrightarrow> keeps_wiring s u"
  by (simp add: keeps_wiring_def)

lemma kw_console_log [simp]: "keeps_wiring s (console_log m s)"
  by (simp add: keeps_wiring_def console_log_def)

lemma kw_setVH [simp]: "keeps_wiring s (setVH num s)"
  by (simp add: keeps_wiring_def setVH_def Let_def)

lemma kw_requestTick [simp]: "keeps_wiring s (requestTick s)"
  by (simp add: keeps_wiring_def requestTick_def split: option.splits)

lemma kw_updateNav [simp]: "keeps_wiring s (updateNav s)"
  by (simp add: keeps_wiring_def updateNav_def Let_def console_log_def split: option.splits)

lemma kw_openMenu [simp]: "keeps_wiring s (openMenu s)"
  by (simp add: keeps_wiring_def openMenu_def Let_def console_log_def split: option.splits)

lemma kw_closeMenu [simp]: "keeps_wiring s (closeMenu s)"
  by (simp add: keeps_wiring_def closeMenu_def Let_def console_log_def setTimeout_def
      window_scrollTo_def split: option.splits)

lemma kw_toggle [simp]: "keeps_wiring s (toggle s)"
  by (simp add: toggle_def split: option.splits)

lemma kw_hideMobileMenu [simp]: "keeps_wiring s (hideMobileMenu s)"
  by (simp add: keeps_wiring_def hideMobileMenu_def split: option.splits)

lemma toggleAccordion_wiring:
  "listeners (toggleAccordion el s) = listeners s"
  "documentElement (toggleAccordion el s) = documentElement s"
  by (simp_all add: toggleAccordion_def Let_def split: option.splits)

lemma kw_toggleAccordion [simp]: "keeps_wiring s (toggleAccordion el s)"
  by (simp add: keeps_wiring_def toggleAccordion_wiring)

lemma kw_gsapCheck [simp]: "keeps_wiring s (gsapCheck s)"
  by (simp add: keeps_wiring_def)

lemma kw_openFirstAccordion [simp]: "keeps_wiring s (openFirstAccordion s)"
  by (simp add: openFirstAccordion_def split: option.splits)


lemma kw_run_raf [simp]: "keeps_wiring s (run_raf cb s)"
  by (cases cb) simp_all

lemma kw_run_handler [simp]: "keeps_wiring s (run_handler num h s)"
proof (cases h)
  case MenuBtnClick
  then show ?thesis by (simp add: keeps_wiring_trans [OF kw_console_log kw_toggle])
next
  case MenuLinkClick
  then show ?thesis by (simp add: keeps_wiring_trans [OF kw_console_log kw_closeMenu])
next
  case CloseBtnClick
  then show ?thesis by (simp add: keeps_wiring_trans [OF kw_console_log kw_closeMenu])
qed simp_all






lemma updateNav_fields:
  "listeners (updateNav s) = listeners s"
  "documentElement (updateNav s) = documentElement s"
  "innerHeight (updateNav s) = innerHeight s"
  "menu (updateNav s) = menu s"
  "timers (updateNav s) = timers s"
  "length (elements (updateNav s)) = length (elements s)"
  by (simp_all add: updateNav_def Let_def console_log_def split: option.splits)


lemma innerHeight_fold_addEventListener [simp]:
  "innerHeight (fold (\<lambda>x. addEventListener (g x) ev h) xs s) = innerHeight s"
  by (induction xs arbitrary: s) (simp_all add: addEventListener_def)









subsection \<open>Initializers and missing elements\<close>

lemma initNavigation_missing:
  "querySelector (elements s) (Id ''navbar'') = None \<or>
   querySelector (elements s) (Id ''main-header'') = None \<Longrightarrow>
   initNavigation s = Inr (console_warn ''Navbar not found'' s)"
  by (auto simp: initNavigation_def Let_def)

lemma initNavigation_present:
  assumes n: "querySelector (elements s) (Id ''navbar'') = Some n"
    and h: "querySelector (elements s) (Id ''main-header'') = Some h"
  shows "initNavigation s = Inr (updateNav
                   (addEventListener Window ''scroll'' RequestTick
                     ((console_log ''Navigation initialized'' s)
                        \<lparr>nav := Some \<lparr>navbar = n, isScrolled = False, ticking = False\<rparr>\<rparr>)))"
  using n h by (simp add: initNavigation_def Let_def deref_def and_then_def)

lemma querySelector_Id_distinct:
  assumes "querySelector els (Id a) = Some i" "querySelector els (Id b) = Some j" "a \<noteq> b"
  shows "i \<noteq> j"
  using querySelector_Some [OF assms(1)] querySelector_Some [OF assms(2)] assms(3) by auto

lemma updateNav_only_navbar:
  assumes "nav s = Some n" "k \<noteq> navbar n" "k < length (elements s)"
  shows "elements (updateNav s) ! k = elements s ! k"
  using assms by (simp add: updateNav_elements nth_modify)

lemma modify_list_update_swap:
  "h \<noteq> i \<Longrightarrow> modify i f (els[h := e]) = (modify i f els)[h := e]"
  by (simp add: modify_def list_update_swap)

lemma updateNav_ignores_other:
  assumes n: "nav s = Some n" and h: "h \<noteq> navbar n"
  shows "updateNav (s\<lparr>elements := (elements s)[h := e]\<rparr>) =
         (updateNav s)\<lparr>elements := (elements (updateNav s))[h := e]\<rparr>"
  using n h
  by (simp add: updateNav_def Let_def scrollY_of_def console_log_def modify_list_update_swap)

text \<open>
  Claim C10. When the page has no \<^verbatim>\<open>#main-header\<close>, \<open>initNavigation\<close> returns the
  page with the warning added and nothing else changed: no closure, no listener. When
  both elements exist it builds the closure around the navbar and registers the scroll
  listener. Yet \<open>updateNav\<close> changes no element other than the navbar, and replacing
  any other element, the main header among them, commutes with it: its outcome does
  not depend on that element.
\<close>

theorem initNavigation_needs_main_header:
  "(querySelector (elements s) (Id ''main-header'') = None \<longrightarrow>
      initNavigation s = Inr (console_warn ''Navbar not found'' s)) \<and>
   (\<forall>n h. querySelector (elements s) (Id ''navbar'') = Some n \<and>
          querySelector (elements s) (Id ''main-header'') = Some h \<longrightarrow>
      h \<noteq> n \<and>
      (\<exists>s' c. initNavigation s = Inr s' \<and> nav s' = Some c \<and> navbar c = n \<and>
              listeners s' = listeners s @ [(Window, ''scroll'', RequestTick)])) \<and>
   (\<forall>n k. nav s = Some n \<and> k \<noteq> navbar n \<and> k < length (elements s) \<longrightarrow>
      elements (updateNav s) ! k = elements s ! k) \<and>
   (\<forall>n h e. nav s = Some n \<and> h \<noteq> navbar n \<longrightarrow>
      updateNav (s\<lparr>elements := (elements s)[h := e]\<rparr>) =
      (updateNav s)\<lparr>elements := (elements (updateNav s))[h := e]\<rparr>)"
proof (intro conjI allI impI)
  assume "querySelector (elements s) (Id ''main-header'') = None"
  then show "initNavigation s = Inr (console_warn ''Navbar not found'' s)"
    by (simp add: initNavigation_missing)
next
  fix n h
  assume a: "querySelector (elements s) (Id ''navbar'') = Some n \<and>
          querySelector (elements s) (Id ''main-header'') = Some h"
  then show "h \<noteq> n" using querySelector_Id_distinct [of "elements s" "''main-header''" h "''navbar''" n] by simp
  let ?s0 = "addEventListener Window ''scroll'' RequestTick
                     ((console_log ''Navigation initialized'' s)
                        \<lparr>nav := Some \<lparr>navbar = n, isScrolled = False, ticking = False\<rparr>\<rparr>)"
  have n0: "nav ?s0 = Some \<lparr>navbar = n, isScrolled = False, ticking = False\<rparr>"
    by (simp add: addEventListener_def console_log_def)
  have "initNavigation s = Inr (updateNav ?s0)"
    using a by (simp add: initNavigation_present)
  moreover have "nav (updateNav ?s0) = Some (\<lparr>navbar = n, isScrolled = False, ticking = False\<rparr>\<lparr>isScrolled := 50 < scrollY_of ?s0, ticking := False\<rparr>)"
    by (rule updateNav_nav [OF n0])
  moreover have "listeners (updateNav ?s0) = listeners s @ [(Window, ''scroll'', RequestTick)]"
    by (simp add: updateNav_fields addEventListener_def console_log_def)
  ultimately show "\<exists>s' c. initNavigation s = Inr s' \<and> nav s' = Some c \<and> navbar c = n \<and>
              listeners s' = listeners s @ [(Window, ''scroll'', RequestTick)]"
    by simp
next
  fix n k assume "nav s = Some n \<and> k \<noteq> navbar n \<and> k < length (elements s)"
  then show "elements (updateNav s) ! k = elements s ! k"
    by (simp add: updateNav_only_navbar)
next
  fix n h e assume "nav s = Some n \<and> h \<noteq> navbar n"
  then show "updateNav (s\<lparr>elements := (elements s)[h := e]\<rparr>) =
      (updateNav s)\<lparr>elements := (elements (updateNav s))[h := e]\<rparr>"
    by (simp add: updateNav_ignores_other)
qed

text \<open>
  A page with a navbar and no main header gets the warning and nothing else; a page
  with both gets the closure for the navbar and the scroll listener.
\<close>

theorem initNavigation_needs_main_header_witness:
  "querySelector (elements no_header_page) (Id ''main-header'') = None \<and>
   initNavigation no_header_page = Inr (console_warn ''Navbar not found'' no_header_page) \<and>
   querySelector (elements styled_nav_page) (Id ''navbar'') = Some 2 \<and>
   querySelector (elements styled_nav_page) (Id ''main-header'') = Some 3 \<and>
   (\<exists>s' c. initNavigation styled_nav_page = Inr s' \<and> nav s' = Some c \<and> navbar c = 2 \<and>
       listeners s' = listeners styled_nav_page @ [(Window, ''scroll'', RequestTick)])"
proof -
  have a: "querySelector (elements no_header_page) (Id ''main-header'') = None" by code_simp
  have b: "querySelector (elements styled_nav_page) (Id ''navbar'') = Some 2"
    "querySelector (elements styled_nav_page) (Id ''main-header'') = Some 3"
    by code_simp+
  show ?thesis
    using initNavigation_needs_main_header [of no_header_page] initNavigation_needs_main_header [of styled_nav_page] a b
    by blast
qed

lemma ident_simps [simp]:
  "ident (classList_add ts e) = ident e"
  "ident (classList_remove ts e) = ident e"
  "ident (style_set p v e) = ident e"
  "ident (setAttribute a v e) = ident e"
  by (simp_all add: classList_add_def classList_remove_def style_set_def setAttribute_def)

lemma querySelectorAll_cong:
  assumes "length els' = length els"
    and "\<And>k. k < length els \<Longrightarrow> matches sel (els' ! k) = matches sel (els ! k)"
  shows "querySelectorAll els' sel = querySelectorAll els sel"
  unfolding querySelectorAll_def using assms by (auto intro: filter_cong)

lemma querySelector_Id_updateNav:
  "querySelector (elements (updateNav s)) (Id x) = querySelector (elements s) (Id x)"
proof (cases "nav s")
  case None
  then show ?thesis by (simp add: updateNav_def)
next
  case (Some n)
  have "querySelectorAll (elements (updateNav s)) (Id x) = querySelectorAll (elements s) (Id x)"
    by (rule querySelectorAll_cong) (simp_all add: updateNav_elements [OF Some] nth_modify)
  then show ?thesis by (simp add: querySelector_def)
qed

lemma querySelector_Id_initNavigation:
  assumes "initNavigation s = Inr s'"
  shows "querySelector (elements s') (Id x) = querySelector (elements s) (Id x)"
proof -
  consider "initNavigation s = Inr (console_warn ''Navbar not found'' s)"
    | n where "initNavigation s = Inr (updateNav
                   (addEventListener Window ''scroll'' RequestTick
                     ((console_log ''Navigation initialized'' s)
                        \<lparr>nav := Some \<lparr>navbar = n, isScrolled = False, ticking = False\<rparr>\<rparr>)))"
    using initNavigation_cases [of s] by blast
  then show ?thesis
  proof cases
    case 1
    with assms have "s' = console_warn ''Navbar not found'' s" by simp
    then show ?thesis by (simp add: console_warn_def)
  next
    case (2 n)
    with assms have "s' = updateNav
                   (addEventListener Window ''scroll'' RequestTick
                     ((console_log ''Navigation initialized'' s)
                        \<lparr>nav := Some \<lparr>navbar = n, isScrolled = False, ticking = False\<rparr>\<rparr>))" by simp
    then show ?thesis
      by (simp add: querySelector_Id_updateNav addEventListener_def console_log_def)
  qed
qed

lemma initNavigation_total: "\<exists>s'. initNavigation s = Inr s'"
  using initNavigation_cases [of s] by blast

lemma openFirstAccordion_none:
  "querySelector (elements s) (Class ''accordion-item'') = None \<Longrightarrow> openFirstAccordion s = s"
  by (simp add: openFirstAccordion_def)

text \<open>
  Claim C4, as the code has it. When one of its elements is missing, \<open>initNavigation\<close>
  and \<open>initMobileMenu\<close> each return the page with their warning added and nothing else
  changed, and the rest of \<open>initAll\<close> runs on that page as it would otherwise. The
  accordion initializer makes no check and logs no warning: it always logs its
  message, publishes \<open>toggleAccordion\<close> and sets its timer, whose callback leaves a
  page without an \<^verbatim>\<open>.accordion-item\<close> as it is. The viewport fix needs no element of
  the page. None of the initializers throws, with or without their elements, and
  neither does \<open>initAll\<close>.
\<close>

theorem initializers_missing_elements:
  "(querySelector (elements s) (Id ''navbar'') = None \<or>
    querySelector (elements s) (Id ''main-header'') = None \<longrightarrow>
      initNavigation s = Inr (console_warn ''Navbar not found'' s) \<and>
      initAll num s =
        and_then (initMobileMenu (console_warn ''Navbar not found''
                   (setTimeout GsapCheck 100 (console_log ''Initializing website...'' s))))
          (\<lambda>s4. and_then (initAccordion s4) (initViewportFix num))) \<and>
   (querySelector (elements s) (Id ''menu-btn'') = None \<or>
    querySelector (elements s) (Id ''main-header'') = None \<or>
    querySelector (elements s) (Id ''mobile-menu'') = None \<longrightarrow>
      initMobileMenu s = Inr (console_warn ''Menu elements not found'' s) \<and>
      (\<exists>s3. initNavigation (setTimeout GsapCheck 100 (console_log ''Initializing website...'' s)) = Inr s3 \<and>
            initAll num s =
              and_then (initAccordion (console_warn ''Menu elements not found'' s3)) (initViewportFix num))) \<and>
   (\<exists>s'. initAccordion s = Inr s' \<and> console s' = console s @ [Log ''Accordion initialized''] \<and>
         toggleAccordion_global s' \<and> timers s' = timers s @ [(300, OpenFirstAccordion)]) \<and>
   (querySelector (elements s) (Class ''accordion-item'') = None \<longrightarrow> openFirstAccordion s = s) \<and>
   (\<exists>s'. initNavigation s = Inr s') \<and> (\<exists>s'. initMobileMenu s = Inr s') \<and>
   (\<exists>s'. initViewportFix num s = Inr s') \<and> (\<exists>s'. initAll num s = Inr s')"
proof (intro conjI impI)
  let ?s2 = "setTimeout GsapCheck 100 (console_log ''Initializing website...'' s)"
  have e2: "elements ?s2 = elements s" by (simp add: setTimeout_def console_log_def)
  { assume a: "querySelector (elements s) (Id ''navbar'') = None \<or>
      querySelector (elements s) (Id ''main-header'') = None"
    then show "initNavigation s = Inr (console_warn ''Navbar not found'' s)"
      by (rule initNavigation_missing)
    from a have "initNavigation ?s2 = Inr (console_warn ''Navbar not found'' ?s2)"
      by (intro initNavigation_missing) (simp add: e2)
    then show "initAll num s =
        and_then (initMobileMenu (console_warn ''Navbar not found'' ?s2))
          (\<lambda>s4. and_then (initAccordion s4) (initViewportFix num))"
      by (simp add: initAll_def Let_def and_then_def) }
  { assume a: "querySelector (elements s) (Id ''menu-btn'') = None \<or>
      querySelector (elements s) (Id ''main-header'') = None \<or>
      querySelector (elements s) (Id ''mobile-menu'') = None"
    then show "initMobileMenu s = Inr (console_warn ''Menu elements not found'' s)"
      by (rule initMobileMenu_missing)
    obtain s3 where 3: "initNavigation ?s2 = Inr s3" using initNavigation_total by blast
    have q: "querySelector (elements s3) (Id x) = querySelector (elements s) (Id x)" for x
      using querySelector_Id_initNavigation [OF 3] by (simp add: e2)
    from a have "initMobileMenu s3 = Inr (console_warn ''Menu elements not found'' s3)"
      by (intro initMobileMenu_missing) (simp add: q)
    with 3 show "\<exists>s3. initNavigation ?s2 = Inr s3 \<and>
            initAll num s =
              and_then (initAccordion (console_warn ''Menu elements not found'' s3)) (initViewportFix num)"
      by (simp add: initAll_def Let_def and_then_def) }
  show "\<exists>s'. initAccordion s = Inr s' \<and> console s' = console s @ [Log ''Accordion initialized''] \<and>
         toggleAccordion_global s' \<and> timers s' = timers s @ [(300, OpenFirstAccordion)]"
    by (simp add: initAccordion_def setTimeout_def console_log_def)
  { assume "querySelector (elements s) (Class ''accordion-item'') = None"
    then show "openFirstAccordion s = s" by (rule openFirstAccordion_none) }
  show "\<exists>s'. initNavigation s = Inr s'" by (rule initNavigation_total)
  show "\<exists>s'. initMobileMenu s = Inr s'" by (rule initMobileMenu_total)
  show "\<exists>s'. initViewportFix num s = Inr s'" by (simp add: initViewportFix_def)
  show "\<exists>s'. initAll num s = Inr s'" by (rule initAll_total)
qed

text \<open>
  On a page that has only its root and its body, the navigation and the menu each add
  their warning and nothing else, the accordion's timer callback changes nothing, and
  the whole initialisation returns a page.
\<close>

theorem initializers_missing_elements_witness:
  "querySelector (elements bare_page) (Id ''navbar'') = None \<and>
   querySelector (elements bare_page) (Id ''menu-btn'') = None \<and>
   querySelector (elements bare_page) (Class ''accordion-item'') = None \<and>
   initNavigation bare_page = Inr (console_warn ''Navbar not found'' bare_page) \<and>
   initMobileMenu bare_page = Inr (console_warn ''Menu elements not found'' bare_page) \<and>
   openFirstAccordion bare_page = bare_page \<and>
   (\<exists>s'. initAll whole_vh bare_page = Inr s')"
proof -
  have a: "querySelector (elements bare_page) (Id ''navbar'') = None"
    "querySelector (elements bare_page) (Id ''menu-btn'') = None"
    "querySelector (elements bare_page) (Class ''accordion-item'') = None"
    by code_simp+
  show ?thesis
    using initializers_missing_elements [of bare_page whole_vh] a by blast
qed

text \<open>
  Claim C4 as stated fails for the accordion: on a page without any accordion element
  \<open>initAccordion\<close> logs an ordinary message, no warning, and it does have effects: it
  publishes the function and sets a timer.
\<close>

theorem initAccordion_no_check_counterexample:
  "querySelectorAll (elements bare_page) (Class ''accordion-item'') = [] \<and>
   querySelectorAll (elements bare_page) (Class ''accordion-content'') = [] \<and>
   console (projr (initAccordion bare_page)) = [Log ''Accordion initialized''] \<and>
   timers (projr (initAccordion bare_page)) = [(300, OpenFirstAccordion)] \<and>
   toggleAccordion_global (projr (initAccordion bare_page)) \<and>
   \<not> toggleAccordion_global bare_page \<and> timers bare_page = []"
  by code_simp

end
